theory Spec2Isabelle
  imports Main "HOL-Library.Word" "HOL-Library.AList"
begin

unbundle bit_operations_syntax

section \<open>Errors and the library generator\<close>

text \<open>
  Exceptions of the Python code are values. \<open>ValueError\<close> and \<open>TurnError\<close> carry the
  message of the raise. \<open>LibraryNoReturn\<close> is not an exception: it marks that a call into
  the standard library generator did not return (its rejection loop has no bound).
\<close>

datatype exn = ValueError string | TurnError string | LibraryNoReturn

text \<open>
  \<open>random.Random\<close> is the standard library's, not the repository's. The code uses three
  of its operations: construction from a seed, \<open>randint(a, b)\<close> and \<open>random()\<close> (whose
  float is thrown away by the only caller, so only the state after the call is kept).
  They are a parameter of every definition that rolls. \<open>None\<close> is a call that does not
  return.
\<close>

record 'g random_api =
  Random :: "int \<Rightarrow> 'g"
  randint :: "'g \<Rightarrow> int \<Rightarrow> int \<Rightarrow> (int \<times> 'g) option"
  random_discard :: "'g \<Rightarrow> 'g option"

text \<open>The documented contract of \<open>randint\<close>: it returns an integer of \<open>[a, b]\<close>.\<close>

definition randint_contract :: "'g random_api \<Rightarrow> bool" where
  "randint_contract R =
     (\<forall>g a b. a \<le> b \<longrightarrow> (\<exists>r g'. randint R g a b = Some (r, g') \<and> a \<le> r \<and> r \<le> b))"

section \<open>rules/core.py: the dice ledger\<close>

record log_entry =
  formula :: string
  result :: int
  rolls :: "int list"
  modifier :: int
  label :: "string option"

record 'g SessionState =
  seed :: int
  turn_log :: "log_entry list"
  rng :: 'g

text \<open>\<open>SessionState(seed=s, turn_log=l)\<close>: \<open>__post_init__\<close> seeds the generator.\<close>

definition new_session :: "'g random_api \<Rightarrow> int \<Rightarrow> log_entry list \<Rightarrow> 'g SessionState" where
  "new_session R s l = \<lparr>seed = s, turn_log = l, rng = Random R s\<rparr>"

definition log_roll :: "'g SessionState \<Rightarrow> string \<Rightarrow> int \<Rightarrow> int list \<Rightarrow> int \<Rightarrow> string option
    \<Rightarrow> 'g SessionState" where
  "log_roll session f res rs m lbl =
     session\<lparr>turn_log := turn_log session @
       [\<lparr>formula = f, result = res, rolls = rs, modifier = m, label = lbl\<rparr>]\<rparr>"

text \<open>
  A call on the mutable session returns the value or the exception, and the session as
  the call left it.
\<close>

type_synonym ('a, 'g) outcome = "(exn + 'a) \<times> 'g SessionState"

definition roll_d20 :: "'g random_api \<Rightarrow> 'g SessionState \<Rightarrow> string option \<Rightarrow> (int, 'g) outcome" where
  "roll_d20 R session lbl =
     (case randint R (rng session) 1 20 of
        None \<Rightarrow> (Inl LibraryNoReturn, session)
      | Some (res, g) \<Rightarrow>
          (Inr res, log_roll (session\<lparr>rng := g\<rparr>) ''1d20'' res [res] 0 lbl))"

subsection \<open>Strings: whitespace, digits, \<open>int\<close> and \<open>str\<close>\<close>

text \<open>
  A Python string is modelled as a list of the 8-bit \<open>char\<close>, read as the code points
  below 256. There \<open>\\s\<close>, \<open>str.strip\<close> and \<open>int\<close> agree on the whitespace characters
  (\<open>str.isspace\<close>), and \<open>\\d\<close> is \<open>0\<close> to \<open>9\<close>.
\<close>

definition is_space :: "char \<Rightarrow> bool" where
  "is_space c = ((of_char c :: nat) \<in> {9, 10, 11, 12, 13, 28, 29, 30, 31, 32, 133, 160})"

definition is_digit :: "char \<Rightarrow> bool" where
  "is_digit c = (48 \<le> (of_char c :: nat) \<and> (of_char c :: nat) \<le> 57)"

definition strip :: "string \<Rightarrow> string" where
  "strip s = rev (dropWhile is_space (rev (dropWhile is_space s)))"

definition digit_val :: "char \<Rightarrow> nat" where
  "digit_val c = (of_char c :: nat) - 48"

text \<open>\<open>int\<close> of a string of decimal digits.\<close>

definition nat_of_digits :: "string \<Rightarrow> nat" where
  "nat_of_digits ds = foldl (\<lambda>acc c. 10 * acc + digit_val c) 0 ds"

text \<open>
  The built-in \<open>int(s)\<close> of a string, in base 10. It accepts less than the patterns let
  through:
  \<^item> it skips, before and after the number, the ASCII whitespace (9 to 13 and 32) and the
    whitespace above 127 (here 133 and 160), but not the separators 28 to 31, which
    \<open>str.isspace\<close>, \<open>str.strip\<close> and \<open>\\s\<close> take for whitespace;
  \<^item> the number is an optional sign and digits, with single underscores allowed between
    digits;
  \<^item> a number of more than \<open>int_max_str_digits\<close> digits is refused (the interpreter's
    limit on conversions, 4300 unless configured otherwise).
  Any refusal is a \<open>ValueError\<close>. Its message is kept without the quoted argument.
\<close>

definition int_space :: "char \<Rightarrow> bool" where
  "int_space c = ((of_char c :: nat) \<in> {9, 10, 11, 12, 13, 32, 133, 160})"

definition int_max_str_digits :: nat where
  "int_max_str_digits = 4300"

definition is_digit_or_underscore :: "char \<Rightarrow> bool" where
  "is_digit_or_underscore c = (is_digit c \<or> c = CHR ''_'')"

fun no_double_underscore :: "string \<Rightarrow> bool" where
  "no_double_underscore (c # d # cs) =
     (\<not> (c = CHR ''_'' \<and> d = CHR ''_'') \<and> no_double_underscore (d # cs))"
| "no_double_underscore cs = True"

definition int_body_ok :: "string \<Rightarrow> bool" where
  "int_body_ok body = (body \<noteq> [] \<and> hd body \<noteq> CHR ''_'' \<and> last body \<noteq> CHR ''_''
                      \<and> no_double_underscore body)"

definition python_int :: "string \<Rightarrow> exn + int" where
  "python_int s =
     (let t = dropWhile int_space s;
          signed = (t \<noteq> [] \<and> (hd t = CHR ''-'' \<or> hd t = CHR ''+''));
          negative = (t \<noteq> [] \<and> hd t = CHR ''-'');
          u = (if signed then tl t else t);
          body = takeWhile is_digit_or_underscore u;
          rest = dropWhile is_digit_or_underscore u;
          ds = filter is_digit body
      in if \<not> int_body_ok body then Inl (ValueError ''invalid literal for int() with base 10'')
         else if length ds > int_max_str_digits
         then Inl (ValueError ''Exceeds the limit for integer string conversion'')
         else if \<not> list_all int_space rest
         then Inl (ValueError ''invalid literal for int() with base 10'')
         else Inr (if negative then - int (nat_of_digits ds) else int (nat_of_digits ds)))"

text \<open>\<open>str\<close> of a natural number and of an integer.\<close>

function str_nat :: "nat \<Rightarrow> string" where
  "str_nat n = (if n < 10 then [char_of (48 + n)]
                else str_nat (n div 10) @ [char_of (48 + n mod 10)])"
  by pat_completeness auto
termination
  by (relation "measure id") auto

declare str_nat.simps [simp del]

definition str_int :: "int \<Rightarrow> string" where
  "str_int i = (if i < 0 then CHR ''-'' # str_nat (nat (- i)) else str_nat (nat i))"

subsection \<open>The two patterns\<close>

text \<open>
  \<open>INTEGER_PATTERN = ^\\s*\\d+\\s*$\<close>. The classes of the pattern are disjoint, so the
  greedy scan is the only way to match.
\<close>

definition INTEGER_PATTERN :: "string \<Rightarrow> bool" where
  "INTEGER_PATTERN s =
     (let t = dropWhile is_space s
      in takeWhile is_digit t \<noteq> [] \<and> list_all is_space (dropWhile is_digit t))"

text \<open>
  \<open>DICE_PATTERN = ^\\s*(\\d*)d(\\d+)([+-]\\d+)?\\s*$\<close>, ignoring case. The result is the
  three groups; the third is \<open>None\<close> when the modifier is absent.
\<close>

definition DICE_PATTERN :: "string \<Rightarrow> (string \<times> string \<times> string option) option" where
  "DICE_PATTERN s =
     (let t = dropWhile is_space s;
          count_text = takeWhile is_digit t
      in case dropWhile is_digit t of
           [] \<Rightarrow> None
         | c # u \<Rightarrow>
             if c \<noteq> CHR ''d'' \<and> c \<noteq> CHR ''D'' then None
             else let sides_text = takeWhile is_digit u;
                      v = dropWhile is_digit u
                  in if sides_text = [] then None
                     else (case v of
                       [] \<Rightarrow> Some (count_text, sides_text, None)
                     | sg # w \<Rightarrow>
                         (if (sg = CHR ''+'' \<or> sg = CHR ''-'') \<and> takeWhile is_digit w \<noteq> []
                          then (if list_all is_space (dropWhile is_digit w)
                                then Some (count_text, sides_text, Some (sg # takeWhile is_digit w))
                                else None)
                          else (if list_all is_space v
                                then Some (count_text, sides_text, None)
                                else None))))"

subsection \<open>\<open>roll\<close>\<close>

text \<open>The list comprehension \<open>[rng.randint(1, sides) for _ in range(count)]\<close>.\<close>

fun roll_dice :: "'g random_api \<Rightarrow> 'g \<Rightarrow> int \<Rightarrow> nat \<Rightarrow> (int list \<times> 'g) option" where
  "roll_dice R g sides 0 = Some ([], g)"
| "roll_dice R g sides (Suc n) =
     (case randint R g 1 sides of
        None \<Rightarrow> None
      | Some (r, g') \<Rightarrow>
          (case roll_dice R g' sides n of
             None \<Rightarrow> None
           | Some (rs, g'') \<Rightarrow> Some (r # rs, g'')))"

definition roll :: "'g random_api \<Rightarrow> 'g SessionState \<Rightarrow> string \<Rightarrow> string option \<Rightarrow> (int, 'g) outcome" where
  "roll R session dice_str lbl =
     (if INTEGER_PATTERN dice_str then
        (case python_int dice_str of
           Inl e \<Rightarrow> (Inl e, session)
         | Inr res \<Rightarrow> (Inr res, log_roll session (str_int res) res [] 0 lbl))
      else (case DICE_PATTERN dice_str of
        None \<Rightarrow> (Inl (ValueError (''Invalid dice string: '' @ dice_str)), session)
      | Some (count_text, sides_text, modifier_text) \<Rightarrow>
          (case (if count_text \<noteq> [] then python_int count_text else Inr 1) of
             Inl e \<Rightarrow> (Inl e, session)
           | Inr count \<Rightarrow>
          (case python_int sides_text of
             Inl e \<Rightarrow> (Inl e, session)
           | Inr sides \<Rightarrow>
          (case (case modifier_text of
                   None \<Rightarrow> Inr 0
                 | Some t \<Rightarrow> if t \<noteq> [] then python_int t else Inr 0) of
             Inl e \<Rightarrow> (Inl e, session)
           | Inr m \<Rightarrow>
               if count \<le> 0 \<or> sides \<le> 0
               then (Inl (ValueError (''Invalid dice string: '' @ dice_str)), session)
               else (case roll_dice R (rng session) sides (nat count) of
                 None \<Rightarrow> (Inl LibraryNoReturn, session)
               | Some (rs, g) \<Rightarrow>
                   (let total = sum_list rs + m
                    in (Inr total,
                        log_roll (session\<lparr>rng := g\<rparr>) (strip dice_str) total rs m lbl))))))))"

subsection \<open>The terms of the contract of \<open>roll\<close>\<close>

text \<open>A result that is a raised \<open>ValueError\<close>.\<close>

definition raises_ValueError :: "exn + 'a \<Rightarrow> bool" where
  "raises_ValueError r = (case r of Inl (ValueError msg) \<Rightarrow> True | _ \<Rightarrow> False)"

text \<open>
  The parts of a string of the integer pattern: the digits, and whether \<open>int\<close> skips what
  stands before and after them.
\<close>

definition integer_digits :: "string \<Rightarrow> string" where
  "integer_digits s = takeWhile is_digit (dropWhile is_space s)"

definition int_accepts_padding :: "string \<Rightarrow> bool" where
  "int_accepts_padding s = (list_all int_space (takeWhile is_space s)
                          \<and> list_all int_space (dropWhile is_digit (dropWhile is_space s)))"

text \<open>The value of the modifier group: a sign and digits.\<close>

definition int_of_signed :: "string \<Rightarrow> int" where
  "int_of_signed t = (if hd t = CHR ''-'' then - int (nat_of_digits (tl t))
                       else int (nat_of_digits (tl t)))"

text \<open>The three groups of the dice pattern are within the limit of \<open>int\<close>.\<close>

definition groups_within_limit :: "string \<times> string \<times> string option \<Rightarrow> bool" where
  "groups_within_limit g =
     (case g of (count_text, sides_text, modifier_text) \<Rightarrow>
        length count_text \<le> int_max_str_digits \<and> length sides_text \<le> int_max_str_digits
        \<and> (case modifier_text of None \<Rightarrow> True | Some t \<Rightarrow> length (tl t) \<le> int_max_str_digits))"

subsection \<open>A sequence of roll calls\<close>

datatype roll_call = RollD20 "string option" | Roll string "string option"

definition do_call :: "'g random_api \<Rightarrow> 'g SessionState \<Rightarrow> roll_call \<Rightarrow> (int, 'g) outcome" where
  "do_call R session c =
     (case c of RollD20 lbl \<Rightarrow> roll_d20 R session lbl | Roll f lbl \<Rightarrow> roll R session f lbl)"

text \<open>
  The calls run in order on the one session; the first call that does not return a value
  ends the run, as the propagating exception does. The result is the values returned so
  far, the exception if any, and the session.
\<close>

fun run_calls :: "'g random_api \<Rightarrow> 'g SessionState \<Rightarrow> roll_call list
    \<Rightarrow> int list \<times> exn option \<times> 'g SessionState" where
  "run_calls R session [] = ([], None, session)"
| "run_calls R session (c # cs) =
     (case do_call R session c of
        (Inl e, session') \<Rightarrow> ([], Some e, session')
      | (Inr v, session') \<Rightarrow>
          (case run_calls R session' cs of (vs, e, session'') \<Rightarrow> (v # vs, e, session'')))"

section \<open>rules/turn.py: replaying the consumed rolls\<close>

text \<open>\<open>_consume_rolls\<close>: \<open>for _ in range(roll_index): session_state.rng.random()\<close>.\<close>

fun consume_loop :: "'g random_api \<Rightarrow> nat \<Rightarrow> 'g \<Rightarrow> 'g option" where
  "consume_loop R 0 g = Some g"
| "consume_loop R (Suc n) g =
     (case random_discard R g of None \<Rightarrow> None | Some g' \<Rightarrow> consume_loop R n g')"

definition consume_rolls :: "'g random_api \<Rightarrow> 'g SessionState \<Rightarrow> int \<Rightarrow> (unit, 'g) outcome" where
  "consume_rolls R session_state roll_index =
     (case consume_loop R (nat roll_index) (rng session_state) of
        None \<Rightarrow> (Inl LibraryNoReturn, session_state)
      | Some g \<Rightarrow> (Inr (), session_state\<lparr>rng := g\<rparr>))"

text \<open>\<open>_count_rolls\<close>: the number of component dice in the session's log.\<close>

definition count_rolls :: "'g SessionState \<Rightarrow> int" where
  "count_rolls session_state = foldl (\<lambda>draws entry. draws + int (length (rolls entry))) 0
     (turn_log session_state)"

section \<open>Two generators\<close>

subsection \<open>A counter\<close>

text \<open>
  A generator whose state is a counter: \<open>randint(a, b)\<close> returns \<open>a\<close> plus the counter
  modulo the width of the range. It keeps the contract of \<open>randint\<close>.
\<close>

definition counter_random :: "nat random_api" where
  "counter_random =
     \<lparr>Random = (\<lambda>s. nat \<bar>s\<bar>),
      randint = (\<lambda>g a b. Some (a + int g mod (b - a + 1), Suc g)),
      random_discard = (\<lambda>g. Some (Suc g))\<rparr>"

subsection \<open>The interpreter's generator, on tabulated output\<close>

text \<open>
  CPython's \<open>random.Random\<close> draws 32-bit words from a Mersenne Twister and builds its
  methods on them:
  \<^item> \<open>random()\<close> takes two words;
  \<^item> \<open>getrandbits(k)\<close> takes one word for each 32 bits of \<open>k\<close>, low word first, and keeps
    the high bits of the last;
  \<^item> \<open>_randbelow(n)\<close> draws \<open>getrandbits(n.bit_length())\<close> until the value is below \<open>n\<close>;
  \<^item> \<open>randint(a, b)\<close> is \<open>a + _randbelow(b - a + 1)\<close>.
  The state is the list of the words not yet drawn. The twister itself is not modelled:
  its first outputs are tabulated, and a call that needs a word beyond the table is
  \<open>None\<close>.
\<close>

type_synonym u32 = "32 word"

definition genrand_uint32 :: "u32 list \<Rightarrow> (u32 \<times> u32 list) option" where
  "genrand_uint32 ws = (case ws of [] \<Rightarrow> None | w # ws' \<Rightarrow> Some (w, ws'))"

function bit_length :: "int \<Rightarrow> nat" where
  "bit_length n = (if n \<le> 0 then 0 else Suc (bit_length (n div 2)))"
  by pat_completeness auto
termination
  by (relation "measure nat") auto

declare bit_length.simps [simp del]

fun getrandbits_words :: "nat \<Rightarrow> nat \<Rightarrow> u32 list \<Rightarrow> (int \<times> u32 list) option" where
  "getrandbits_words 0 k ws = Some (0, ws)"
| "getrandbits_words (Suc i) k ws =
     (case genrand_uint32 ws of
        None \<Rightarrow> None
      | Some (w, ws') \<Rightarrow>
          (let r = (if k < 32 then drop_bit (32 - k) w else w)
           in case getrandbits_words i (k - 32) ws' of
                None \<Rightarrow> None
              | Some (hi, ws'') \<Rightarrow> Some (uint r + 2 ^ 32 * hi, ws'')))"

definition getrandbits :: "nat \<Rightarrow> u32 list \<Rightarrow> (int \<times> u32 list) option" where
  "getrandbits k ws = getrandbits_words ((k - 1) div 32 + 1) k ws"

text \<open>
  The loop \<open>while r >= n: r = getrandbits(k)\<close>. Each draw takes a word, so on a table of
  \<open>length ws\<close> words the loop ends within \<open>length ws\<close> rounds: with a value, or at the end
  of the table.
\<close>

fun randbelow_loop :: "nat \<Rightarrow> int \<Rightarrow> nat \<Rightarrow> u32 list \<Rightarrow> (int \<times> u32 list) option" where
  "randbelow_loop 0 n k ws = None"
| "randbelow_loop (Suc fuel) n k ws =
     (case getrandbits k ws of
        None \<Rightarrow> None
      | Some (r, ws') \<Rightarrow> if r \<ge> n then randbelow_loop fuel n k ws' else Some (r, ws'))"

definition randbelow :: "int \<Rightarrow> u32 list \<Rightarrow> (int \<times> u32 list) option" where
  "randbelow n ws = randbelow_loop (length ws) n (bit_length n) ws"

text \<open>
  \<open>randrange\<close> raises on an empty range; the code never asks for one (\<open>sides > 0\<close> is
  checked first), and the interface has no exception, so an empty range is \<open>None\<close> here.
\<close>

definition cpython_randint :: "u32 list \<Rightarrow> int \<Rightarrow> int \<Rightarrow> (int \<times> u32 list) option" where
  "cpython_randint ws a b =
     (if b + 1 - a > 0
      then (case randbelow (b + 1 - a) ws of
              None \<Rightarrow> None
            | Some (r, ws') \<Rightarrow> Some (a + r, ws'))
      else None)"

definition cpython_random_discard :: "u32 list \<Rightarrow> u32 list option" where
  "cpython_random_discard ws =
     (case genrand_uint32 ws of
        None \<Rightarrow> None
      | Some (a, ws') \<Rightarrow> (case genrand_uint32 ws' of None \<Rightarrow> None | Some (b, ws'') \<Rightarrow> Some ws''))"

text \<open>
  The first ten words of the twister as \<open>random.Random(1)\<close> seeds it (the interpreter's
  \<open>random.Random(1).getrandbits(32)\<close>, ten times). No other seed is tabulated.
\<close>

definition mt19937_words :: "int \<Rightarrow> u32 list" where
  "mt19937_words s =
     (if s = 1
      then [577090037, 2444712010, 3639700191, 3445702192, 3280387012,
            271041745, 1095513148, 506456969, 2127877499, 3268308804]
      else [])"

definition cpython_random :: "(u32 list) random_api" where
  "cpython_random =
     \<lparr>Random = mt19937_words, randint = cpython_randint, random_discard = cpython_random_discard\<rparr>"

section \<open>rules/statuses.py: the status ledger\<close>

text \<open>
  An entry of the ledger is a dict with the keys \<open>stacks\<close>, \<open>level\<close> and \<open>duration\<close>. The
  code reads them with \<open>entry.get(key, default)\<close>, so a key may be absent: \<open>None\<close> is an
  absent key (and, for \<open>duration\<close>, also the value \<open>None\<close>, which \<open>get\<close> does not tell
  apart).
\<close>

record status_entry =
  stacks :: "int option"
  level :: "int option"
  duration :: "int option"

text \<open>
  The ledger is a dict from names to entries. Python dicts keep insertion order, and
  \<open>tick_statuses\<close> walks the ledger in that order, so it is an association list:
  \<open>AList.update\<close> overwrites in place or appends a new key, as \<open>d[k] = v\<close> does, and
  \<open>AList.delete\<close> is \<open>d.pop(k, None)\<close>. The argument \<open>None\<close> stands for the empty ledger
  (\<open>statuses or {}\<close>).
\<close>

type_synonym status_ledger = "(string \<times> status_entry) list"

definition STATUS_CANONICAL :: "(string \<times> string) list" where
  "STATUS_CANONICAL =
     [(''bleeding'', ''Bleeding''), (''ignited'', ''Ignited''), (''stun'', ''Stun''),
      (''asphyxiation'', ''Asphyxiation''), (''toxin'', ''Toxin''), (''injured'', ''Injured''),
      (''concentration'', ''Concentration''), (''hidden'', ''Hidden''), (''cold'', ''Cold''),
      (''disease'', ''Disease'')]"

definition DEFAULT_DURATIONS :: "(string \<times> int option) list" where
  "DEFAULT_DURATIONS =
     [(''Bleeding'', Some 3), (''Ignited'', Some 3), (''Stun'', Some 1),
      (''Asphyxiation'', Some 2), (''Toxin'', Some 3), (''Injured'', Some 3),
      (''Concentration'', None), (''Hidden'', Some 1), (''Cold'', Some 3),
      (''Disease'', None)]"

text \<open>
  \<open>str.lower\<close> on the code points below 256: \<open>A\<close> to \<open>Z\<close>, and the capital letters of
  Latin-1 (192 to 222 without the multiplication sign 215), move up by 32.
\<close>

definition lower_char :: "char \<Rightarrow> char" where
  "lower_char c =
     (let n = (of_char c :: nat)
      in if (65 \<le> n \<and> n \<le> 90) \<or> (192 \<le> n \<and> n \<le> 222 \<and> n \<noteq> 215) then char_of (n + 32) else c)"

definition lower :: "string \<Rightarrow> string" where
  "lower s = map lower_char s"

definition normalize_status :: "string \<Rightarrow> exn + string" where
  "normalize_status name =
     (let key = lower (strip name)
      in case map_of STATUS_CANONICAL key of
           Some canonical \<Rightarrow> Inr canonical
         | None \<Rightarrow> Inl (ValueError (''Unknown status: '' @ name)))"

text \<open>\<open>int(entry.get(key, default))\<close>.\<close>

definition get_int :: "int option \<Rightarrow> int \<Rightarrow> int" where
  "get_int v dflt = (case v of None \<Rightarrow> dflt | Some i \<Rightarrow> i)"

text \<open>\<open>updated.get(canonical, {"stacks": 0, "level": 0, "duration": None})\<close>.\<close>

definition get_entry :: "status_ledger \<Rightarrow> string \<Rightarrow> status_entry" where
  "get_entry updated canonical =
     (case map_of updated canonical of
        None \<Rightarrow> \<lparr>stacks = Some 0, level = Some 0, duration = None\<rparr>
      | Some e \<Rightarrow> e)"

text \<open>The duration given, or else the default of the status (\<open>DEFAULT_DURATIONS.get\<close>).\<close>

definition given_or_default :: "int option \<Rightarrow> string \<Rightarrow> int option" where
  "given_or_default n_duration canonical =
     (case n_duration of
        None \<Rightarrow> (case map_of DEFAULT_DURATIONS canonical of None \<Rightarrow> None | Some d \<Rightarrow> d)
      | Some d \<Rightarrow> Some d)"

text \<open>
  \<open>apply_status(statuses, name, stacks=n_stacks, level=n_level, duration=n_duration)\<close>.
\<close>

definition apply_status :: "status_ledger \<Rightarrow> string \<Rightarrow> int \<Rightarrow> int \<Rightarrow> int option
    \<Rightarrow> exn + status_ledger" where
  "apply_status statuses name n_stacks n_level n_duration =
     (case normalize_status name of
        Inl e \<Rightarrow> Inl e
      | Inr canonical \<Rightarrow>
          (let entry0 = get_entry statuses canonical;
               entry1 = entry0\<lparr>stacks := Some (max 1 (get_int (stacks entry0) 0 + n_stacks))\<rparr>;
               entry2 = entry1\<lparr>level := Some (max (get_int (level entry1) 0) n_level)\<rparr>;
               dur = given_or_default n_duration canonical;
               entry3 = (case dur of
                           None \<Rightarrow> entry2
                         | Some d \<Rightarrow>
                             (case duration entry2 of
                                None \<Rightarrow> entry2\<lparr>duration := Some d\<rparr>
                              | Some existing \<Rightarrow> entry2\<lparr>duration := Some (max existing d)\<rparr>))
           in Inr (AList.update canonical entry3 statuses)))"

text \<open>
  The \<open>if\<close>/\<open>elif\<close> chain of \<open>tick_statuses\<close>: what one entry does to \<open>hp_delta\<close>, and to
  its own level on a day tick of Disease.
\<close>

definition tick_effect :: "string \<Rightarrow> string \<Rightarrow> status_entry \<Rightarrow> int \<Rightarrow> status_entry \<times> int" where
  "tick_effect tick_key canonical entry hp_delta =
     (let stacks_v = get_int (stacks entry) 1;
          level_v = get_int (level entry) 1
      in if canonical = ''Bleeding'' \<and> tick_key = ''turn''
         then (entry, hp_delta - max 1 stacks_v * max 1 level_v)
         else if canonical = ''Ignited'' \<and> tick_key = ''turn''
         then (entry, hp_delta - 2 * max 1 level_v)
         else if canonical = ''Asphyxiation'' \<and> tick_key = ''turn''
         then (entry, hp_delta - 2 * max 1 level_v)
         else if canonical = ''Toxin'' \<and> tick_key = ''turn''
         then (entry, hp_delta - max 1 level_v)
         else if canonical = ''Disease'' \<and> tick_key = ''day''
         then (let level_w = max 1 level_v + 1
               in (entry\<lparr>level := Some level_w\<rparr>, hp_delta - level_w))
         else (entry, hp_delta))"

text \<open>
  \<open>tick_statuses\<close>. The loop runs over a snapshot of the items (\<open>list(updated.items())\<close>)
  and writes to \<open>updated\<close>, \<open>hp_delta\<close> and \<open>expired\<close>; \<open>normalize_status\<close> may raise in
  any round.
\<close>

fun tick_loop :: "string \<Rightarrow> (string \<times> status_entry) list \<Rightarrow> status_ledger \<times> int \<times> string list
    \<Rightarrow> exn + (status_ledger \<times> int \<times> string list)" where
  "tick_loop tick_key [] st = Inr st"
| "tick_loop tick_key ((name, entry) # items) (updated, hp_delta, expired) =
     (case normalize_status name of
        Inl e \<Rightarrow> Inl e
      | Inr canonical \<Rightarrow>
          (case tick_effect tick_key canonical entry hp_delta of
             (entry1, hp_delta1) \<Rightarrow>
               (case duration entry1 of
                  None \<Rightarrow>
                    tick_loop tick_key items
                      (AList.update canonical entry1 updated, hp_delta1, expired)
                | Some d \<Rightarrow>
                    if tick_key = ''turn''
                    then (if d - 1 \<le> 0
                          then tick_loop tick_key items
                                 (AList.delete canonical updated, hp_delta1, expired @ [canonical])
                          else tick_loop tick_key items
                                 (AList.update canonical (entry1\<lparr>duration := Some (d - 1)\<rparr>)
                                    updated, hp_delta1, expired))
                    else tick_loop tick_key items
                           (AList.update canonical entry1 updated, hp_delta1, expired))))"

definition tick_statuses :: "status_ledger \<Rightarrow> string
    \<Rightarrow> exn + (status_ledger \<times> int \<times> string list)" where
  "tick_statuses statuses tick_type =
     tick_loop (lower (strip tick_type)) statuses (statuses, 0, [])"

text \<open>
  The data model of an entry: a canonical name, \<open>stacks \<ge> 1\<close> and \<open>level \<ge> 1\<close>; the names
  of a dict are distinct.
\<close>

definition wf_entry :: "status_entry \<Rightarrow> bool" where
  "wf_entry e = ((case stacks e of None \<Rightarrow> False | Some s \<Rightarrow> 1 \<le> s)
               \<and> (case level e of None \<Rightarrow> False | Some l \<Rightarrow> 1 \<le> l))"

definition wf_ledger :: "status_ledger \<Rightarrow> bool" where
  "wf_ledger L = (distinct (map fst L)
               \<and> list_all (\<lambda>(n, e). n \<in> set (map snd STATUS_CANONICAL) \<and> wf_entry e) L)"

text \<open>What a turn tick is said to do, entry by entry.\<close>

definition turn_damage :: "string \<times> status_entry \<Rightarrow> int" where
  "turn_damage p =
     (case p of (n, e) \<Rightarrow>
        if n = ''Bleeding'' then the (stacks e) * the (level e)
        else if n = ''Ignited'' \<or> n = ''Asphyxiation'' then 2 * the (level e)
        else if n = ''Toxin'' then the (level e)
        else 0)"

definition expires :: "string \<times> status_entry \<Rightarrow> bool" where
  "expires p = (case duration (snd p) of None \<Rightarrow> False | Some d \<Rightarrow> d - 1 \<le> 0)"

definition decremented :: "string \<times> status_entry \<Rightarrow> string \<times> status_entry" where
  "decremented p = (fst p, (snd p)\<lparr>duration := map_option (\<lambda>d. d - 1) (duration (snd p))\<rparr>)"

text \<open>A ledger of three entries, for the examples.\<close>

definition example_ledger :: status_ledger where
  "example_ledger =
     [(''Bleeding'', \<lparr>stacks = Some 2, level = Some 3, duration = Some 2\<rparr>),
      (''Stun'', \<lparr>stacks = Some 1, level = Some 1, duration = Some 1\<rparr>),
      (''Disease'', \<lparr>stacks = Some 1, level = Some 1, duration = None\<rparr>)]"

section \<open>gm_os/protocols.py and gm_os/router.py: routing an envelope\<close>

subsection \<open>The protocols and their registry\<close>

datatype ProtocolId =
    PROTO_CLARIFICATION | PROTO_INVENTION | PROTO_CATASTROPHIC | PROTO_CONTENT_GAP
  | PROTO_EXPLORATION | PROTO_STAGNATION | PROTO_WORLD_BOOTSTRAP | PROTO_ARC_SEEDING
  | PROTO_ROUTINE | PROTO_RETCON_DISPUTE | PROTO_RULE_EDGE_CASE | PROTO_DOWNTIME
  | PROTO_MEMORY_PROMOTION | PROTO_MEMORY_RECALL

text \<open>The members of the enumeration, in the order of their declaration, and their values.\<close>

definition protocol_ids :: "ProtocolId list" where
  "protocol_ids =
     [PROTO_CLARIFICATION, PROTO_INVENTION, PROTO_CATASTROPHIC, PROTO_CONTENT_GAP,
      PROTO_EXPLORATION, PROTO_STAGNATION, PROTO_WORLD_BOOTSTRAP, PROTO_ARC_SEEDING,
      PROTO_ROUTINE, PROTO_RETCON_DISPUTE, PROTO_RULE_EDGE_CASE, PROTO_DOWNTIME,
      PROTO_MEMORY_PROMOTION, PROTO_MEMORY_RECALL]"

fun protocol_value :: "ProtocolId \<Rightarrow> string" where
  "protocol_value PROTO_CLARIFICATION = ''PROTO_CLARIFICATION''"
| "protocol_value PROTO_INVENTION = ''PROTO_INVENTION''"
| "protocol_value PROTO_CATASTROPHIC = ''PROTO_CATASTROPHIC''"
| "protocol_value PROTO_CONTENT_GAP = ''PROTO_CONTENT_GAP''"
| "protocol_value PROTO_EXPLORATION = ''PROTO_EXPLORATION''"
| "protocol_value PROTO_STAGNATION = ''PROTO_STAGNATION''"
| "protocol_value PROTO_WORLD_BOOTSTRAP = ''PROTO_WORLD_BOOTSTRAP''"
| "protocol_value PROTO_ARC_SEEDING = ''PROTO_ARC_SEEDING''"
| "protocol_value PROTO_ROUTINE = ''PROTO_ROUTINE''"
| "protocol_value PROTO_RETCON_DISPUTE = ''PROTO_RETCON_DISPUTE''"
| "protocol_value PROTO_RULE_EDGE_CASE = ''PROTO_RULE_EDGE_CASE''"
| "protocol_value PROTO_DOWNTIME = ''PROTO_DOWNTIME''"
| "protocol_value PROTO_MEMORY_PROMOTION = ''PROTO_MEMORY_PROMOTION''"
| "protocol_value PROTO_MEMORY_RECALL = ''PROTO_MEMORY_RECALL''"

record ProtocolEntry =
  time_policy :: string
  risk_policy :: string
  allowed_tools :: "string list"
  required_context :: "string list"

text \<open>\<open>PROTOCOL_REGISTRY\<close>: the dict has an entry for every member, so it is a function.\<close>

fun PROTOCOL_REGISTRY :: "ProtocolId \<Rightarrow> ProtocolEntry" where
  "PROTOCOL_REGISTRY PROTO_CLARIFICATION =
     \<lparr>time_policy = ''freeze'', risk_policy = ''none'', allowed_tools = [],
      required_context = [''last_intent'', ''scene_snapshot'']\<rparr>"
| "PROTOCOL_REGISTRY PROTO_INVENTION =
     \<lparr>time_policy = ''advance'', risk_policy = ''none'',
      allowed_tools = [''npc_generator'', ''location_generator''],
      required_context = [''era'', ''setting'']\<rparr>"
| "PROTOCOL_REGISTRY PROTO_CATASTROPHIC =
     \<lparr>time_policy = ''freeze'', risk_policy = ''confirm_catastrophic'',
      allowed_tools = [''threat_assessor''], required_context = [''stakes'', ''party_state'']\<rparr>"
| "PROTOCOL_REGISTRY PROTO_CONTENT_GAP =
     \<lparr>time_policy = ''freeze'', risk_policy = ''none'', allowed_tools = [''lore_lookup''],
      required_context = [''requested_topic'', ''campaign_memory'']\<rparr>"
| "PROTOCOL_REGISTRY PROTO_EXPLORATION =
     \<lparr>time_policy = ''advance'', risk_policy = ''none'',
      allowed_tools = [''map_hint'', ''sensory_prompt''],
      required_context = [''location'', ''scene_snapshot'']\<rparr>"
| "PROTOCOL_REGISTRY PROTO_STAGNATION =
     \<lparr>time_policy = ''advance'', risk_policy = ''none'', allowed_tools = [''pace_boost''],
      required_context = [''last_actions'', ''scene_snapshot'']\<rparr>"
| "PROTOCOL_REGISTRY PROTO_WORLD_BOOTSTRAP =
     \<lparr>time_policy = ''freeze'', risk_policy = ''none'', allowed_tools = [''world_seed''],
      required_context = [''era'', ''setting'', ''player_prefs'']\<rparr>"
| "PROTOCOL_REGISTRY PROTO_ARC_SEEDING =
     \<lparr>time_policy = ''advance'', risk_policy = ''none'', allowed_tools = [''plot_seed''],
      required_context = [''session_setup'', ''npcs'']\<rparr>"
| "PROTOCOL_REGISTRY PROTO_ROUTINE =
     \<lparr>time_policy = ''advance'', risk_policy = ''none'', allowed_tools = [],
      required_context = [''scene_snapshot'']\<rparr>"
| "PROTOCOL_REGISTRY PROTO_RETCON_DISPUTE =
     \<lparr>time_policy = ''freeze'', risk_policy = ''confirm_catastrophic'',
      allowed_tools = [''log_review''], required_context = [''turn_log'', ''player_statement'']\<rparr>"
| "PROTOCOL_REGISTRY PROTO_RULE_EDGE_CASE =
     \<lparr>time_policy = ''freeze'', risk_policy = ''none'', allowed_tools = [''rules_lookup''],
      required_context = [''rule_context'', ''character_state'']\<rparr>"
| "PROTOCOL_REGISTRY PROTO_DOWNTIME =
     \<lparr>time_policy = ''advance'', risk_policy = ''none'',
      allowed_tools = [''downtime_generator''],
      required_context = [''party_state'', ''resources'']\<rparr>"
| "PROTOCOL_REGISTRY PROTO_MEMORY_PROMOTION =
     \<lparr>time_policy = ''freeze'', risk_policy = ''none'', allowed_tools = [''memory_writer''],
      required_context = [''session_summary'']\<rparr>"
| "PROTOCOL_REGISTRY PROTO_MEMORY_RECALL =
     \<lparr>time_policy = ''freeze'', risk_policy = ''none'', allowed_tools = [],
      required_context = [''turn_log'', ''session_summary'']\<rparr>"

subsection \<open>The envelope, the session state and the decision\<close>

text \<open>
  The router reads four fields of the envelope: \<open>mode\<close>, \<open>protocol_id\<close>, \<open>confidence\<close> and
  \<open>ooc_questions\<close>. The schema restricts \<open>mode\<close> to \<open>gm\<close>, \<open>ooc\<close>, \<open>dev\<close> and \<open>confidence\<close>
  to \<open>high\<close>, \<open>medium\<close>, \<open>low\<close>; the router only compares them with one literal each, so
  they are strings here, and what is proved holds for every string. The fields of the
  envelope carry the prefix \<open>env\<close> where the decision has a field of the same name.
\<close>

record TurnEnvelope =
  mode :: string
  env_protocol_id :: string
  confidence :: string
  env_ooc_questions :: "string list"

text \<open>
  The session state is a loosely typed dict. A value is \<open>None\<close>, a bool, a string, a
  number, a list or a dict.
\<close>

datatype json =
    JNone | JBool bool | JStr string | JNum int | JList "json list"
  | JDict "(string \<times> json) list"

record RoutedDecision =
  protocol_id :: ProtocolId
  freeze_time :: bool
  execute :: bool
  reason :: "string option"
  dev_report :: "(string \<times> json) list option"
  ooc_questions :: "string list option"

definition SAFE_PROTOCOLS :: "ProtocolId set" where
  "SAFE_PROTOCOLS =
     {PROTO_CLARIFICATION, PROTO_ROUTINE, PROTO_EXPLORATION, PROTO_DOWNTIME,
      PROTO_CONTENT_GAP, PROTO_RULE_EDGE_CASE, PROTO_MEMORY_PROMOTION, PROTO_MEMORY_RECALL}"

text \<open>\<open>_resolve_protocol_id\<close>: the member whose value is the string, or \<open>None\<close>.\<close>

definition resolve_protocol_id :: "string \<Rightarrow> ProtocolId option" where
  "resolve_protocol_id v = find (\<lambda>p. protocol_value p = v) protocol_ids"

text \<open>\<open>dict.get\<close> on a loosely typed dict: an absent key reads as \<open>None\<close>.\<close>

definition dict_get :: "(string \<times> json) list \<Rightarrow> string \<Rightarrow> json" where
  "dict_get d k = (case map_of d k of None \<Rightarrow> JNone | Some v \<Rightarrow> v)"

definition dev_mode_enabled :: "(string \<times> json) list \<Rightarrow> bool" where
  "dev_mode_enabled session_state =
     (case dict_get session_state ''settings'' of
        JDict settings \<Rightarrow>
          (let dev_flag0 = dict_get settings ''dev_mode_enabled'';
               dev_flag = (if dev_flag0 = JNone then dict_get settings ''dev_mode'' else dev_flag0)
           in case dev_flag of
                JBool b \<Rightarrow> b
              | JStr t \<Rightarrow> lower t = ''true''
              | _ \<Rightarrow> False)
      | _ \<Rightarrow> False)"

text \<open>\<open>route_envelope(envelope, session_state)\<close>; \<open>session_state\<close> may be \<open>None\<close>.\<close>

definition route_envelope :: "TurnEnvelope \<Rightarrow> (string \<times> json) list option \<Rightarrow> RoutedDecision" where
  "route_envelope envelope session_state0 =
     (let session_state = (case session_state0 of None \<Rightarrow> [] | Some d \<Rightarrow> d)
      in if mode envelope = ''ooc'' \<or> env_ooc_questions envelope \<noteq> []
         then \<lparr>protocol_id = PROTO_CLARIFICATION, freeze_time = True, execute = False,
               reason = Some ''ooc'', dev_report = None,
               ooc_questions = Some (env_ooc_questions envelope)\<rparr>
         else (case resolve_protocol_id (env_protocol_id envelope) of
           None \<Rightarrow>
             if dev_mode_enabled session_state
             then \<lparr>protocol_id = PROTO_RULE_EDGE_CASE, freeze_time = True, execute = False,
                   reason = Some ''unknown_protocol'',
                   dev_report = Some [(''error'', JStr ''Unknown protocol_id''),
                                      (''protocol_id'', JStr (env_protocol_id envelope))],
                   ooc_questions = None\<rparr>
             else \<lparr>protocol_id = PROTO_CLARIFICATION, freeze_time = True, execute = False,
                   reason = Some ''unknown_protocol'', dev_report = None,
                   ooc_questions =
                     Some [''Protocol not recognized. Can you restate your request?'']\<rparr>
         | Some pid \<Rightarrow>
             if confidence envelope = ''low'' \<and> pid \<notin> SAFE_PROTOCOLS
             then \<lparr>protocol_id = PROTO_CLARIFICATION, freeze_time = True, execute = False,
                   reason = Some ''low_confidence'', dev_report = None,
                   ooc_questions =
                     Some [''I need a bit more detail to proceed safely. What should I focus on?'']\<rparr>
             else \<lparr>protocol_id = pid,
                   freeze_time = (time_policy (PROTOCOL_REGISTRY pid) = ''freeze''),
                   execute = True, reason = Some ''ok'', dev_report = None,
                   ooc_questions = None\<rparr>))"

text \<open>An envelope without questions, for the examples.\<close>

definition example_envelope :: "string \<Rightarrow> string \<Rightarrow> string \<Rightarrow> TurnEnvelope" where
  "example_envelope m p c =
     \<lparr>mode = m, env_protocol_id = p, confidence = c, env_ooc_questions = []\<rparr>"

section \<open>rules/combat.py: resolving an attack\<close>

subsection \<open>Damage against armour points and hit points\<close>

definition CALLED_SHOT_PENALTY :: int where
  "CALLED_SHOT_PENALTY = 5"

definition DODGE_BONUS_DEFAULT :: int where
  "DODGE_BONUS_DEFAULT = 2"

text \<open>The keys of \<open>CALLED_SHOT_EFFECTS\<close>; the descriptions are not read by the code.\<close>

definition CALLED_SHOT_EFFECTS :: "string list" where
  "CALLED_SHOT_EFFECTS = [''disarm'', ''slow'', ''stun_attempt'']"

definition dodge_bonus :: "string option \<Rightarrow> int \<Rightarrow> int" where
  "dodge_bonus reaction reaction_bonus =
     (if reaction \<noteq> Some ''dodge'' then 0
      else if reaction_bonus \<noteq> 0 then reaction_bonus
      else DODGE_BONUS_DEFAULT)"

definition apply_damage :: "int \<Rightarrow> int \<Rightarrow> int \<Rightarrow> int \<times> int" where
  "apply_damage ap hp damage =
     (let remaining_ap = max 0 (ap - damage);
          damage_to_hp = max 0 (damage - ap);
          remaining_hp = max 0 (hp - damage_to_hp)
      in (remaining_ap, remaining_hp))"

definition apply_damage_with_block :: "int \<Rightarrow> int \<Rightarrow> int \<Rightarrow> int \<Rightarrow> int \<times> int" where
  "apply_damage_with_block base_ap hp damage block_ap =
     (let total_ap = base_ap + block_ap
      in case apply_damage total_ap hp damage of
           (remaining_ap, remaining_hp) \<Rightarrow> (min remaining_ap base_ap, remaining_hp))"

text \<open>
  \<open>_roll_damage\<close>. The formula is rolled, and the damage is then computed again from the
  entry the roll has just logged: the sum of its component dice, doubled on a critical,
  plus its modifier. The value \<open>roll\<close> returned is kept only when the log is empty. (The
  entries of the log are those \<open>roll\<close> writes, so the checks that \<open>rolls\<close> is a list of
  integers always pass.)
\<close>

definition roll_damage :: "'g random_api \<Rightarrow> 'g SessionState \<Rightarrow> string \<Rightarrow> int \<Rightarrow> bool
    \<Rightarrow> (int, 'g) outcome" where
  "roll_damage R session dice_str bonus_v crit_v =
     (case roll R session dice_str None of
        (Inl e, session1) \<Rightarrow> (Inl e, session1)
      | (Inr base_total, session1) \<Rightarrow>
          (let base_total1 =
                 (if turn_log session1 \<noteq> []
                  then (let last_entry = last (turn_log session1);
                            dice_total = sum_list (rolls last_entry)
                        in dice_total * (if crit_v then 2 else 1) + modifier last_entry)
                  else base_total)
           in (Inr (base_total1 + bonus_v), session1)))"

text \<open>\<open>override or roll_d20(session)\<close>: an override of 0 counts as none.\<close>

definition override_or_roll_d20 :: "'g random_api \<Rightarrow> 'g SessionState \<Rightarrow> int option
    \<Rightarrow> (int, 'g) outcome" where
  "override_or_roll_d20 R session override =
     (case override of
        None \<Rightarrow> roll_d20 R session None
      | Some v \<Rightarrow> if v \<noteq> 0 then (Inr v, session) else roll_d20 R session None)"

text \<open>\<open>_apply_called_shot_effect\<close>.\<close>

definition apply_called_shot_effect :: "status_ledger \<Rightarrow> string option \<Rightarrow> exn + status_ledger" where
  "apply_called_shot_effect statuses_v effect =
     (if effect = Some ''stun_attempt'' then apply_status statuses_v ''Stun'' 1 1 (Some 1)
      else if effect = Some ''slow'' then apply_status statuses_v ''Cold'' 1 1 (Some 1)
      else Inr statuses_v)"

subsection \<open>Combatants and results\<close>

text \<open>
  The four dataclasses share field names; a name that two of them have is written with
  the name of its record in front, except for the record declared last.
\<close>

record Weapon =
  name :: string
  damage :: string
  bonus :: int
  tags :: "string list"

record CombatantState =
  name :: string
  dex :: int
  armor_rating :: int
  ap :: int
  hp :: int
  statuses :: status_ledger
  skill :: int
  attr :: int
  attack_bonus :: int
  damage_bonus :: int
  weapon :: "Weapon option"
  initiative_bonus :: int

record CounterResult =
  triggered :: bool
  hit :: bool
  attack_roll :: int
  attack_total :: int
  damage :: int
  ap_before :: int
  ap_after :: int
  hp_before :: int
  hp_after :: int

record AttackResult =
  hit :: bool
  crit :: bool
  attack_roll :: int
  attack_total :: int
  target_ar :: int
  damage :: int
  ap_before :: int
  ap_after :: int
  hp_before :: int
  hp_after :: int
  called_shot_effect :: "string option"
  counter :: "CounterResult option"

subsection \<open>\<open>_resolve_counter\<close> and \<open>resolve_attack\<close>\<close>

definition resolve_counter :: "'g random_api \<Rightarrow> 'g SessionState \<Rightarrow> int option
    \<Rightarrow> CombatantState \<Rightarrow> CombatantState
    \<Rightarrow> (exn + CounterResult \<times> CombatantState) \<times> 'g SessionState" where
  "resolve_counter R session counter_roll_override attacker defender =
     (let counter_weapon =
            (case weapon defender of
               Some w \<Rightarrow> w
             | None \<Rightarrow> \<lparr>Weapon.name = ''Counter Strike'', Weapon.damage = ''1d4'',
                         bonus = 0, tags = []\<rparr>)
      in case override_or_roll_d20 R session counter_roll_override of
           (Inl e, session1) \<Rightarrow> (Inl e, session1)
         | (Inr roll_v, session1) \<Rightarrow>
             (let total_v = roll_v + skill defender + attr defender + attack_bonus defender;
                  hit_v = (total_v \<ge> armor_rating attacker)
              in if hit_v
                 then (case roll_damage R session1 (Weapon.damage counter_weapon)
                              (bonus counter_weapon + damage_bonus defender) (roll_v \<ge> 19) of
                         (Inl e, session2) \<Rightarrow> (Inl e, session2)
                       | (Inr damage_total, session2) \<Rightarrow>
                           (case apply_damage (ap attacker) (hp attacker) damage_total of
                              (ap_v, hp_v) \<Rightarrow>
                                (Inr (\<lparr>triggered = True, CounterResult.hit = True,
                                       CounterResult.attack_roll = roll_v,
                                       CounterResult.attack_total = total_v,
                                       CounterResult.damage = damage_total,
                                       CounterResult.ap_before = ap attacker,
                                       CounterResult.ap_after = ap_v,
                                       CounterResult.hp_before = hp attacker,
                                       CounterResult.hp_after = hp_v\<rparr>,
                                      attacker\<lparr>ap := ap_v, hp := hp_v\<rparr>), session2)))
                 else (Inr (\<lparr>triggered = True, CounterResult.hit = False,
                             CounterResult.attack_roll = roll_v,
                             CounterResult.attack_total = total_v,
                             CounterResult.damage = 0,
                             CounterResult.ap_before = ap attacker,
                             CounterResult.ap_after = ap attacker,
                             CounterResult.hp_before = hp attacker,
                             CounterResult.hp_after = hp attacker\<rparr>,
                            attacker\<lparr>ap := ap attacker, hp := hp attacker\<rparr>), session1)))"

text \<open>
  The part of \<open>resolve_attack\<close> under \<open>if hit:\<close>. It gives the damage, the defender's AP and
  HP after it, and the defender's statuses.
\<close>

definition resolve_hit :: "'g random_api \<Rightarrow> 'g SessionState \<Rightarrow> CombatantState \<Rightarrow> CombatantState
    \<Rightarrow> bool \<Rightarrow> string option \<Rightarrow> int \<Rightarrow> bool
    \<Rightarrow> (exn + int \<times> int \<times> int \<times> status_ledger) \<times> 'g SessionState" where
  "resolve_hit R session attacker defender called_shot effect block_ap crit_v =
     (case weapon attacker of
        None \<Rightarrow> (Inl (ValueError ''Attacker has no weapon for damage roll.''), session)
      | Some w \<Rightarrow>
          (case roll_damage R session (Weapon.damage w) (bonus w + damage_bonus attacker) crit_v of
             (Inl e, session1) \<Rightarrow> (Inl e, session1)
           | (Inr damage_total, session1) \<Rightarrow>
               (case (if block_ap \<noteq> 0
                      then apply_damage_with_block (ap defender) (hp defender) damage_total block_ap
                      else apply_damage (ap defender) (hp defender) damage_total) of
                  (ap_v, hp_v) \<Rightarrow>
                    (if called_shot
                     then (case apply_called_shot_effect (statuses defender) effect of
                             Inl e \<Rightarrow> (Inl e, session1)
                           | Inr updated_statuses \<Rightarrow>
                               (Inr (damage_total, ap_v, hp_v, updated_statuses), session1))
                     else (Inr (damage_total, ap_v, hp_v, statuses defender), session1)))))"

text \<open>
  \<open>resolve_attack(session, attacker, defender, called_shot=..., called_shot_effect=...,
  reaction=..., reaction_bonus=..., reaction_ap=..., attack_roll_override=...,
  counter_roll_override=...)\<close>. The result is the value or the exception, and the session
  with what the call has logged until then.
\<close>

definition resolve_attack :: "'g random_api \<Rightarrow> 'g SessionState \<Rightarrow> CombatantState \<Rightarrow> CombatantState
    \<Rightarrow> bool \<Rightarrow> string option \<Rightarrow> string option \<Rightarrow> int \<Rightarrow> int \<Rightarrow> int option \<Rightarrow> int option
    \<Rightarrow> (exn + AttackResult \<times> CombatantState \<times> CombatantState) \<times> 'g SessionState" where
  "resolve_attack R session attacker defender called_shot effect0 reaction reaction_bonus
       reaction_ap attack_roll_override counter_roll_override =
     (let effect = (if called_shot \<and> effect0 = None then Some ''disarm'' else effect0)
      in if called_shot \<and> (case effect of None \<Rightarrow> True | Some t \<Rightarrow> t \<notin> set CALLED_SHOT_EFFECTS)
         then (Inl (ValueError ''Unknown called shot effect.''), session)
         else
          (let target_v = armor_rating defender + dodge_bonus reaction reaction_bonus
           in case override_or_roll_d20 R session attack_roll_override of
                (Inl e, session1) \<Rightarrow> (Inl e, session1)
              | (Inr roll_v, session1) \<Rightarrow>
                  (let crit_v = (roll_v \<ge> 19);
                       total_v = roll_v + skill attacker + attr attacker + attack_bonus attacker
                                 - (if called_shot then CALLED_SHOT_PENALTY else 0);
                       hit_v = (total_v \<ge> target_v);
                       base_ap = ap defender;
                       block_ap = (if reaction = Some ''block'' then reaction_ap else 0)
                   in case (if hit_v
                            then resolve_hit R session1 attacker defender called_shot effect
                                   block_ap crit_v
                            else (Inr (0, base_ap, hp defender, statuses defender), session1)) of
                        (Inl e, session2) \<Rightarrow> (Inl e, session2)
                      | (Inr (damage_total, ap_v, hp_v, updated_statuses), session2) \<Rightarrow>
                          (case (if reaction = Some ''counter'' \<and> \<not> hit_v
                                 then (case resolve_counter R session2 counter_roll_override
                                              attacker defender of
                                         (Inl e, session3) \<Rightarrow> (Inl e, session3)
                                       | (Inr (counter_result, attacker1), session3) \<Rightarrow>
                                           (Inr (Some counter_result, attacker1), session3))
                                 else (Inr (None, attacker), session2)) of
                             (Inl e, session3) \<Rightarrow> (Inl e, session3)
                           | (Inr (counter_v, attacker1), session3) \<Rightarrow>
                               (Inr (\<lparr>hit = hit_v, crit = crit_v, attack_roll = roll_v,
                                      attack_total = total_v, target_ar = target_v,
                                      damage = damage_total,
                                      ap_before = base_ap + block_ap, ap_after = ap_v,
                                      hp_before = hp defender, hp_after = hp_v,
                                      called_shot_effect =
                                        (if hit_v \<and> called_shot then effect else None),
                                      counter = counter_v\<rparr>,
                                     attacker1,
                                     defender\<lparr>ap := ap_v, hp := hp_v,
                                              statuses := updated_statuses\<rparr>), session3)))))"

text \<open>Two combatants for the examples.\<close>

definition example_attacker :: "string \<Rightarrow> int \<Rightarrow> CombatantState" where
  "example_attacker formula_v dmg_bonus =
     \<lparr>name = ''Ada'', dex = 2, armor_rating = 11, ap = 3, hp = 12, statuses = [],
      skill = 2, attr = 1, attack_bonus = 0, damage_bonus = dmg_bonus,
      weapon = Some \<lparr>Weapon.name = ''Club'', Weapon.damage = formula_v, bonus = 1, tags = []\<rparr>,
      initiative_bonus = 0\<rparr>"

definition example_defender :: CombatantState where
  "example_defender =
     \<lparr>name = ''Bo'', dex = 1, armor_rating = 10, ap = 5, hp = 10, statuses = [],
      skill = 0, attr = 0, attack_bonus = 0, damage_bonus = 0, weapon = None,
      initiative_bonus = 0\<rparr>"

section \<open>The dice ledger: determinism\<close>

text \<open>
  A roll reads the generator and appends to the log; it never reads the log. So two
  sessions whose generators are in the same state return the same value, leave their
  generators in the same state and append the same entries, whatever their logs held.
\<close>

lemma roll_d20_same_rng:
  assumes "rng s1 = rng s2"
  shows "fst (roll_d20 R s1 lbl) = fst (roll_d20 R s2 lbl)
       \<and> rng (snd (roll_d20 R s1 lbl)) = rng (snd (roll_d20 R s2 lbl))
       \<and> (\<exists>es. turn_log (snd (roll_d20 R s1 lbl)) = turn_log s1 @ es
              \<and> turn_log (snd (roll_d20 R s2 lbl)) = turn_log s2 @ es)"
  using assms by (auto simp: roll_d20_def log_roll_def split: option.splits)

lemma roll_same_rng:
  assumes "rng s1 = rng s2"
  shows "fst (roll R s1 f lbl) = fst (roll R s2 f lbl)
       \<and> rng (snd (roll R s1 f lbl)) = rng (snd (roll R s2 f lbl))
       \<and> (\<exists>es. turn_log (snd (roll R s1 f lbl)) = turn_log s1 @ es
              \<and> turn_log (snd (roll R s2 f lbl)) = turn_log s2 @ es)"
  using assms
  by (auto simp: roll_def log_roll_def Let_def split: option.splits sum.splits)

lemma do_call_same_rng:
  assumes "rng s1 = rng s2"
  shows "fst (do_call R s1 c) = fst (do_call R s2 c)
       \<and> rng (snd (do_call R s1 c)) = rng (snd (do_call R s2 c))
       \<and> (\<exists>es. turn_log (snd (do_call R s1 c)) = turn_log s1 @ es
              \<and> turn_log (snd (do_call R s2 c)) = turn_log s2 @ es)"
  using roll_d20_same_rng [OF assms] roll_same_rng [OF assms]
  by (cases c) (simp_all add: do_call_def)

lemma run_calls_same_rng:
  "rng s1 = rng s2 \<Longrightarrow>
     fst (run_calls R s1 cs) = fst (run_calls R s2 cs)
   \<and> fst (snd (run_calls R s1 cs)) = fst (snd (run_calls R s2 cs))
   \<and> rng (snd (snd (run_calls R s1 cs))) = rng (snd (snd (run_calls R s2 cs)))
   \<and> (\<exists>es. turn_log (snd (snd (run_calls R s1 cs))) = turn_log s1 @ es
          \<and> turn_log (snd (snd (run_calls R s2 cs))) = turn_log s2 @ es)"
proof (induction cs arbitrary: s1 s2)
  case Nil
  then show ?case by simp
next
  case (Cons c cs)
  obtain r1 t1 where d1: "do_call R s1 c = (r1, t1)" by (cases "do_call R s1 c")
  obtain r2 t2 where d2: "do_call R s2 c = (r2, t2)" by (cases "do_call R s2 c")
  from do_call_same_rng [OF Cons.prems, of R c] d1 d2
  obtain es where r: "r1 = r2" and g: "rng t1 = rng t2"
    and l1: "turn_log t1 = turn_log s1 @ es" and l2: "turn_log t2 = turn_log s2 @ es"
    by auto
  show ?case
  proof (cases r1)
    case (Inl e)
    with d1 d2 r g l1 l2 show ?thesis by auto
  next
    case (Inr v)
    from Cons.IH [OF g] obtain es' where
      a: "fst (run_calls R t1 cs) = fst (run_calls R t2 cs)"
      and b: "fst (snd (run_calls R t1 cs)) = fst (snd (run_calls R t2 cs))"
      and c: "rng (snd (snd (run_calls R t1 cs))) = rng (snd (snd (run_calls R t2 cs)))"
      and m1: "turn_log (snd (snd (run_calls R t1 cs))) = turn_log t1 @ es'"
      and m2: "turn_log (snd (snd (run_calls R t2 cs))) = turn_log t2 @ es'"
      by blast
    from Inr d1 d2 r a b c m1 m2 l1 l2 show ?thesis
      by (auto simp: split_beta)
  qed
qed

text \<open>
  C1. Two sessions created with the same seed and fed the same sequence of
  \<open>roll_d20\<close>/\<open>roll\<close> calls return the same values (and stop at the same exception, if
  any) and append the same log entries. This holds for every seed, every generator and
  every starting content \<open>l1\<close>, \<open>l2\<close> of the two logs; two fresh sessions are the case
  \<open>l1 = l2 = []\<close>, where the two logs are then equal.
\<close>

theorem dice_ledger_deterministic:
  "fst (run_calls R (new_session R s l1) cs) = fst (run_calls R (new_session R s l2) cs)
   \<and> fst (snd (run_calls R (new_session R s l1) cs))
       = fst (snd (run_calls R (new_session R s l2) cs))
   \<and> (\<exists>es. turn_log (snd (snd (run_calls R (new_session R s l1) cs))) = l1 @ es
          \<and> turn_log (snd (snd (run_calls R (new_session R s l2) cs))) = l2 @ es)"
  using run_calls_same_rng [of "new_session R s l1" "new_session R s l2" R cs]
  by (simp add: new_session_def)

section \<open>The contract of \<open>roll\<close>\<close>

lemma space_not_d: "is_space c \<Longrightarrow> c \<noteq> CHR ''d'' \<and> c \<noteq> CHR ''D''"
  by (auto simp: is_space_def)

text \<open>A string of the integer pattern is not of the dice pattern: the code's order of the
  two tests does not matter.\<close>

lemma integer_not_dice:
  assumes "INTEGER_PATTERN s"
  shows "DICE_PATTERN s = None"
proof -
  let ?r = "dropWhile is_digit (dropWhile is_space s)"
  from assms have sp: "list_all is_space ?r"
    by (simp add: INTEGER_PATTERN_def Let_def)
  show ?thesis
  proof (cases ?r)
    case Nil
    show ?thesis unfolding DICE_PATTERN_def Let_def Nil by simp
  next
    case (Cons c u)
    with sp have "is_space c" by simp
    then have "c \<noteq> CHR ''d'' \<and> c \<noteq> CHR ''D''" by (rule space_not_d)
    then show ?thesis unfolding DICE_PATTERN_def Let_def Cons by simp
  qed
qed

lemma roll_dice_contract:
  assumes "randint_contract R" and "1 \<le> sides"
  shows "\<exists>rs g'. roll_dice R g sides n = Some (rs, g') \<and> length rs = n
           \<and> (\<forall>r \<in> set rs. 1 \<le> r \<and> r \<le> sides)"
proof (induction n arbitrary: g)
  case 0
  then show ?case by simp
next
  case (Suc n)
  from assms obtain r g1 where r: "randint R g 1 sides = Some (r, g1)" "1 \<le> r" "r \<le> sides"
    unfolding randint_contract_def by blast
  from Suc [of g1] obtain rs g2 where rs: "roll_dice R g1 sides n = Some (rs, g2)"
    "length rs = n" "\<forall>r \<in> set rs. 1 \<le> r \<and> r \<le> sides" by blast
  from r rs show ?case by simp
qed

lemma sum_list_bounds:
  "\<forall>r \<in> set rs. (1::int) \<le> r \<and> r \<le> m \<Longrightarrow>
     int (length rs) \<le> sum_list rs \<and> sum_list rs \<le> int (length rs) * m"
  by (induction rs) (auto simp: algebra_simps)

lemma counter_random_contract: "randint_contract counter_random"
  unfolding randint_contract_def
proof (intro allI impI)
  fix g :: nat and a b :: int
  assume "a \<le> b"
  then have pos: "0 < b - a + 1" by simp
  have "0 \<le> int g mod (b - a + 1)" using pos by (rule pos_mod_sign)
  moreover have "int g mod (b - a + 1) < b - a + 1" using pos by (rule pos_mod_bound)
  ultimately show "\<exists>r g'. randint counter_random g a b = Some (r, g') \<and> a \<le> r \<and> r \<le> b"
    by (simp add: counter_random_def)
qed

subsection \<open>\<open>int\<close> on what the patterns let through\<close>

lemma int_space_is_space: "int_space c \<Longrightarrow> is_space c"
  by (auto simp: int_space_def is_space_def)

lemma is_space_not_number:
  "is_space c \<Longrightarrow> \<not> is_digit_or_underscore c \<and> c \<noteq> CHR ''-'' \<and> c \<noteq> CHR ''+''"
  by (auto simp: is_space_def is_digit_or_underscore_def is_digit_def)

lemma digit_not_other:
  "is_digit c \<Longrightarrow> \<not> int_space c \<and> \<not> is_space c \<and> c \<noteq> CHR ''-'' \<and> c \<noteq> CHR ''+''
     \<and> c \<noteq> CHR ''_'' \<and> is_digit_or_underscore c"
  by (auto simp: is_space_def int_space_def is_digit_or_underscore_def is_digit_def)

lemma digits_no_double_underscore:
  "list_all is_digit ds \<Longrightarrow> no_double_underscore ds"
  by (induction ds rule: no_double_underscore.induct) (auto dest: digit_not_other)

lemma digits_body_ok:
  assumes "ds \<noteq> []" and "list_all is_digit ds"
  shows "int_body_ok ds"
proof -
  from assms have "is_digit (hd ds)" and "is_digit (last ds)"
    by (simp_all add: list_all_iff)
  with assms digits_no_double_underscore [OF assms(2)] show ?thesis
    by (auto simp: int_body_ok_def dest: digit_not_other)
qed

lemma python_int_leading: "list_all int_space w \<Longrightarrow> python_int (w @ x) = python_int x"
  by (simp add: python_int_def dropWhile_append2 list_all_iff)

lemma python_int_bad_leading:
  assumes "is_space c" and "\<not> int_space c"
  shows "python_int (c # x) = Inl (ValueError ''invalid literal for int() with base 10'')"
  using assms is_space_not_number [OF assms(1)]
  by (simp add: python_int_def Let_def int_body_ok_def)

lemma python_int_digits:
  assumes "ds \<noteq> []" and "list_all is_digit ds" and "list_all is_space rest"
  shows "python_int (ds @ rest) =
     (if length ds > int_max_str_digits
      then Inl (ValueError ''Exceeds the limit for integer string conversion'')
      else if \<not> list_all int_space rest
      then Inl (ValueError ''invalid literal for int() with base 10'')
      else Inr (int (nat_of_digits ds)))"
proof -
  from assms obtain d ds' where ds: "ds = d # ds'" by (cases ds) auto
  with assms have d: "is_digit d" by simp
  note dn = digit_not_other [OF d]
  have dw: "dropWhile int_space (ds @ rest) = ds @ rest" using ds dn by simp
  have all: "\<forall>c \<in> set ds. is_digit_or_underscore c"
    using assms(2) by (auto simp: list_all_iff dest: digit_not_other)
  have rest_nil: "takeWhile is_digit_or_underscore rest = []"
    using assms(3) by (cases rest) (auto dest: is_space_not_number)
  have tw: "takeWhile is_digit_or_underscore (ds @ rest) = ds"
    using all rest_nil by (simp add: takeWhile_append2)
  have rest_id: "dropWhile is_digit_or_underscore rest = rest"
    using assms(3) by (cases rest) (auto dest: is_space_not_number)
  have dr: "dropWhile is_digit_or_underscore (ds @ rest) = rest"
    using all rest_id by (simp add: dropWhile_append2)
  have fl: "filter is_digit ds = ds" using assms(2) by (simp add: list_all_iff)
  have hd: "hd (ds @ rest) = d" using ds by simp
  have ne: "ds @ rest \<noteq> []" using ds by simp
  show ?thesis
    unfolding python_int_def Let_def dw
    using hd ne dn tw dr fl digits_body_ok [OF assms(1,2)]
    by simp
qed

lemma python_int_signed:
  assumes "sg = CHR ''+'' \<or> sg = CHR ''-''" and "ds \<noteq> []" and "list_all is_digit ds"
  shows "python_int (sg # ds) =
     (if length ds > int_max_str_digits
      then Inl (ValueError ''Exceeds the limit for integer string conversion'')
      else Inr (int_of_signed (sg # ds)))"
proof -
  have sp: "\<not> int_space sg" using assms(1) by (auto simp: int_space_def)
  have dw: "dropWhile int_space (sg # ds) = sg # ds" using sp by simp
  have all: "\<forall>c \<in> set ds. is_digit_or_underscore c"
    using assms(3) by (auto simp: list_all_iff dest: digit_not_other)
  have tw: "takeWhile is_digit_or_underscore ds = ds" using all by simp
  have dr: "dropWhile is_digit_or_underscore ds = []" using all by simp
  have fl: "filter is_digit ds = ds" using assms(3) by (simp add: list_all_iff)
  note ok = digits_body_ok [OF assms(2,3)]
  from assms(1) show ?thesis
  proof
    assume "sg = CHR ''+''"
    then show ?thesis
      unfolding python_int_def Let_def dw
      by (simp add: tw dr fl ok int_of_signed_def)
  next
    assume "sg = CHR ''-''"
    then show ?thesis
      unfolding python_int_def Let_def dw
      by (simp add: tw dr fl ok int_of_signed_def)
  qed
qed

lemma integer_pattern_parts:
  assumes "INTEGER_PATTERN s"
  shows "s = takeWhile is_space s @ integer_digits s @ dropWhile is_digit (dropWhile is_space s)"
    and "integer_digits s \<noteq> []" and "list_all is_digit (integer_digits s)"
    and "list_all is_space (dropWhile is_digit (dropWhile is_space s))"
proof -
  show "s = takeWhile is_space s @ integer_digits s @ dropWhile is_digit (dropWhile is_space s)"
    by (simp add: integer_digits_def)
  from assms show "integer_digits s \<noteq> []"
    by (simp add: INTEGER_PATTERN_def integer_digits_def Let_def)
  show "list_all is_digit (integer_digits s)"
    by (auto simp: integer_digits_def list_all_iff dest: set_takeWhileD)
  from assms show "list_all is_space (dropWhile is_digit (dropWhile is_space s))"
    by (simp add: INTEGER_PATTERN_def Let_def)
qed

lemma python_int_space_rejects:
  "list_all is_space w \<Longrightarrow> \<not> list_all int_space w \<Longrightarrow> raises_ValueError (python_int (w @ x))"
proof (induction w)
  case Nil
  then show ?case by simp
next
  case (Cons c w)
  show ?case
  proof (cases "int_space c")
    case True
    then have "python_int ([c] @ (w @ x)) = python_int (w @ x)"
      by (intro python_int_leading) simp
    with Cons True show ?thesis by simp
  next
    case False
    from Cons.prems have "is_space c" by simp
    from python_int_bad_leading [OF this False, of "w @ x"] show ?thesis
      by (simp add: raises_ValueError_def)
  qed
qed

lemma python_int_integer_accepts:
  assumes "INTEGER_PATTERN s" and "int_accepts_padding s"
    and "length (integer_digits s) \<le> int_max_str_digits"
  shows "python_int s = Inr (int (nat_of_digits (integer_digits s)))"
proof -
  note parts = integer_pattern_parts [OF assms(1)]
  let ?w2 = "dropWhile is_digit (dropWhile is_space s)"
  from assms(2) have w1: "list_all int_space (takeWhile is_space s)"
    and w2: "list_all int_space ?w2" by (simp_all add: int_accepts_padding_def)
  have "python_int s = python_int (takeWhile is_space s @ integer_digits s @ ?w2)"
    by (rule arg_cong [OF parts(1)])
  also have "\<dots> = python_int (integer_digits s @ ?w2)"
    using w1 by (rule python_int_leading)
  also have "\<dots> = Inr (int (nat_of_digits (integer_digits s)))"
    using python_int_digits [OF parts(2,3,4)] w2 assms(3) by simp
  finally show ?thesis .
qed

lemma python_int_integer_rejects:
  assumes "INTEGER_PATTERN s"
    and "\<not> (int_accepts_padding s \<and> length (integer_digits s) \<le> int_max_str_digits)"
  shows "raises_ValueError (python_int s)"
proof -
  note parts = integer_pattern_parts [OF assms(1)]
  let ?w1 = "takeWhile is_space s"
  let ?w2 = "dropWhile is_digit (dropWhile is_space s)"
  have eq: "python_int s = python_int (?w1 @ integer_digits s @ ?w2)"
    by (rule arg_cong [OF parts(1)])
  show ?thesis
  proof (cases "list_all int_space ?w1")
    case True
    have "python_int (?w1 @ integer_digits s @ ?w2) = python_int (integer_digits s @ ?w2)"
      using True by (rule python_int_leading)
    with eq have "python_int s = python_int (integer_digits s @ ?w2)" by (rule trans)
    with python_int_digits [OF parts(2,3,4)] True assms(2) show ?thesis
      by (auto simp: raises_ValueError_def int_accepts_padding_def)
  next
    case False
    have "list_all is_space ?w1" by (auto simp: list_all_iff dest: set_takeWhileD)
    from python_int_space_rejects [OF this False, of "integer_digits s @ ?w2"] eq
    show ?thesis by simp
  qed
qed

lemma dice_tail_cases:
  assumes "(if bad then None
            else if sdig = [] then None
            else (case v of
                    [] \<Rightarrow> Some (cdig, sdig, None)
                  | sg # w \<Rightarrow>
                      (if (sg = CHR ''+'' \<or> sg = CHR ''-'') \<and> mdig w \<noteq> []
                       then (if P w then Some (cdig, sdig, Some (sg # mdig w)) else None)
                       else (if Q then Some (cdig, sdig, None) else None))))
           = Some (ct, sd, mt)"
  shows "ct = cdig \<and> sd = sdig \<and> sdig \<noteq> []
       \<and> (mt = None \<or> (\<exists>sg w. (sg = CHR ''+'' \<or> sg = CHR ''-'') \<and> mdig w \<noteq> []
                              \<and> mt = Some (sg # mdig w)))"
  using assms by (auto split: if_splits list.splits)

lemma dice_pattern_groups:
  assumes "DICE_PATTERN s = Some (ct, sd, mt)"
  shows "list_all is_digit ct \<and> sd \<noteq> [] \<and> list_all is_digit sd
       \<and> (case mt of None \<Rightarrow> True
          | Some t \<Rightarrow> t \<noteq> [] \<and> (hd t = CHR ''+'' \<or> hd t = CHR ''-'') \<and> tl t \<noteq> []
                      \<and> list_all is_digit (tl t))"
proof -
  have tw: "\<And>xs. list_all is_digit (takeWhile is_digit xs)"
    by (auto simp: list_all_iff dest: set_takeWhileD)
  let ?t = "dropWhile is_space s"
  show ?thesis
  proof (cases "dropWhile is_digit ?t")
    case Nil
    show ?thesis using assms unfolding DICE_PATTERN_def Let_def Nil by simp
  next
    case (Cons c u)
    have "(if c \<noteq> CHR ''d'' \<and> c \<noteq> CHR ''D'' then None
            else if takeWhile is_digit u = [] then None
            else (case dropWhile is_digit u of
                    [] \<Rightarrow> Some (takeWhile is_digit ?t, takeWhile is_digit u, None)
                  | sg # w \<Rightarrow>
                      (if (sg = CHR ''+'' \<or> sg = CHR ''-'') \<and> takeWhile is_digit w \<noteq> []
                       then (if list_all is_space (dropWhile is_digit w)
                             then Some (takeWhile is_digit ?t, takeWhile is_digit u,
                                        Some (sg # takeWhile is_digit w))
                             else None)
                       else (if list_all is_space (dropWhile is_digit u)
                             then Some (takeWhile is_digit ?t, takeWhile is_digit u, None)
                             else None))))
           = Some (ct, sd, mt)"
      using assms unfolding DICE_PATTERN_def Let_def Cons by simp
    from dice_tail_cases [where mdig = "takeWhile is_digit", OF this]
    have "ct = takeWhile is_digit ?t \<and> sd = takeWhile is_digit u \<and> takeWhile is_digit u \<noteq> []
       \<and> (mt = None \<or> (\<exists>sg w. (sg = CHR ''+'' \<or> sg = CHR ''-'') \<and> takeWhile is_digit w \<noteq> []
                              \<and> mt = Some (sg # takeWhile is_digit w)))" .
    with tw show ?thesis by auto
  qed
qed

lemma python_int_group:
  assumes "list_all is_digit ds"
  shows "(if ds \<noteq> [] then python_int ds else Inr 1) =
     (if length ds > int_max_str_digits
      then Inl (ValueError ''Exceeds the limit for integer string conversion'')
      else Inr (int (if ds \<noteq> [] then nat_of_digits ds else 1)))"
proof (cases "ds = []")
  case True
  then show ?thesis by simp
next
  case False
  from python_int_digits [OF False assms, of "[]"] False show ?thesis by simp
qed

lemma roll_dice_unfold:
  assumes "\<not> INTEGER_PATTERN s" and "DICE_PATTERN s = Some (ct, sd, mt)"
    and "N = (if ct \<noteq> [] then nat_of_digits ct else 1)" and "M = nat_of_digits sd"
    and "K = (case mt of None \<Rightarrow> 0 | Some t \<Rightarrow> int_of_signed t)"
  shows "roll R st s lbl =
     (if \<not> groups_within_limit (ct, sd, mt)
      then (Inl (ValueError ''Exceeds the limit for integer string conversion''), st)
      else if N = 0 \<or> M = 0
      then (Inl (ValueError (''Invalid dice string: '' @ s)), st)
      else (case roll_dice R (rng st) (int M) N of
              None \<Rightarrow> (Inl LibraryNoReturn, st)
            | Some (rs, g) \<Rightarrow>
                (Inr (sum_list rs + K),
                 log_roll (st\<lparr>rng := g\<rparr>) (strip s) (sum_list rs + K) rs K lbl)))"
proof -
  note g = dice_pattern_groups [OF assms(2)]
  from g have c: "(if ct \<noteq> [] then python_int ct else Inr 1) =
     (if length ct > int_max_str_digits
      then Inl (ValueError ''Exceeds the limit for integer string conversion'')
      else Inr (int N))"
    using python_int_group [of ct] assms(3) by simp
  from g have sd: "sd \<noteq> []" "list_all is_digit sd" by simp_all
  from python_int_digits [OF sd, of "[]"] have m: "python_int sd =
     (if length sd > int_max_str_digits
      then Inl (ValueError ''Exceeds the limit for integer string conversion'')
      else Inr (int M))"
    using assms(4) by simp
  have k: "(case mt of None \<Rightarrow> Inr 0 | Some t \<Rightarrow> if t \<noteq> [] then python_int t else Inr 0) =
     (if (case mt of None \<Rightarrow> False | Some t \<Rightarrow> length (tl t) > int_max_str_digits)
      then Inl (ValueError ''Exceeds the limit for integer string conversion'')
      else Inr K)"
  proof (cases mt)
    case None
    with assms(5) show ?thesis by simp
  next
    case (Some t)
    with g obtain sg ds where t: "t = sg # ds" "sg = CHR ''+'' \<or> sg = CHR ''-''" "ds \<noteq> []"
      "list_all is_digit ds" by (cases t) auto
    from python_int_signed [OF t(2,3,4)] t(1) Some assms(5) show ?thesis by simp
  qed
  show ?thesis
    unfolding roll_def using assms(1,2)
    by (simp add: c m k groups_within_limit_def Let_def split: option.splits)
qed

lemma roll_integer_unfold:
  "INTEGER_PATTERN s \<Longrightarrow> roll R st s lbl =
     (case python_int s of
        Inl e \<Rightarrow> (Inl e, st)
      | Inr res \<Rightarrow> (Inr res, log_roll st (str_int res) res [] 0 lbl))"
  by (simp add: roll_def)

text \<open>
  C7, as the code has it. Under the contract of the library's \<open>randint\<close>, for every formula
  string \<open>s\<close>:
  \<^item> when \<open>s\<close> is a bare non-negative integer that \<open>int\<close> accepts (digits, at most 4300 of
    them, with nothing around them but whitespace that \<open>int\<close> skips), \<open>roll\<close> returns that
    integer and appends exactly one ledger entry;
  \<^item> when \<open>s\<close> matches \<open>NdM\<close> with an optional signed modifier \<open>K\<close> (\<open>N\<close> is 1 when the
    count is omitted), each of at most 4300 digits, and \<open>N \<ge> 1\<close>, \<open>M \<ge> 1\<close>, \<open>roll\<close> returns a
    total in \<open>[N*1+K, N*M+K]\<close> and appends exactly one ledger entry;
  \<^item> \<open>roll\<close> fails with the format error (\<open>ValueError\<close>) exactly when \<open>s\<close> matches the integer
    pattern and \<open>int\<close> refuses it, or \<open>s\<close> matches neither pattern, or \<open>int\<close> refuses one
    of \<open>N\<close>, \<open>M\<close>, \<open>K\<close>, or \<open>N\<close> or \<open>M\<close> is \<open>\<le> 0\<close>;
  \<^item> and in that case the ledger, and the whole session, is unchanged.
\<close>

theorem roll_contract:
  assumes "randint_contract R"
  shows "(INTEGER_PATTERN s \<and> int_accepts_padding s
            \<and> length (integer_digits s) \<le> int_max_str_digits \<longrightarrow>
            fst (roll R st s lbl) = Inr (int (nat_of_digits (integer_digits s)))
          \<and> (\<exists>e. turn_log (snd (roll R st s lbl)) = turn_log st @ [e]))
       \<and> (DICE_PATTERN s = Some (ct, sd, mt) \<and> groups_within_limit (ct, sd, mt)
            \<and> N = (if ct \<noteq> [] then nat_of_digits ct else 1) \<and> M = nat_of_digits sd
            \<and> K = (case mt of None \<Rightarrow> 0 | Some t \<Rightarrow> int_of_signed t)
            \<and> 1 \<le> N \<and> 1 \<le> M \<longrightarrow>
            (\<exists>total e. fst (roll R st s lbl) = Inr total
               \<and> int N * 1 + K \<le> total \<and> total \<le> int N * int M + K
               \<and> turn_log (snd (roll R st s lbl)) = turn_log st @ [e]))
       \<and> (raises_ValueError (fst (roll R st s lbl)) \<longleftrightarrow>
            (INTEGER_PATTERN s
               \<and> \<not> (int_accepts_padding s \<and> length (integer_digits s) \<le> int_max_str_digits))
            \<or> (\<not> INTEGER_PATTERN s
               \<and> (case DICE_PATTERN s of
                    None \<Rightarrow> True
                  | Some (ct', sd', mt') \<Rightarrow>
                      \<not> groups_within_limit (ct', sd', mt')
                      \<or> (if ct' \<noteq> [] then nat_of_digits ct' else 1) \<le> 0
                      \<or> nat_of_digits sd' \<le> 0)))
       \<and> (raises_ValueError (fst (roll R st s lbl)) \<longrightarrow> snd (roll R st s lbl) = st)"
proof -
  have p1: "fst (roll R st s lbl) = Inr (int (nat_of_digits (integer_digits s)))
          \<and> (\<exists>e. turn_log (snd (roll R st s lbl)) = turn_log st @ [e])"
    if a: "INTEGER_PATTERN s \<and> int_accepts_padding s
            \<and> length (integer_digits s) \<le> int_max_str_digits"
  proof -
    from a have "python_int s = Inr (int (nat_of_digits (integer_digits s)))"
      by (simp add: python_int_integer_accepts)
    with a show ?thesis by (simp add: roll_integer_unfold log_roll_def)
  qed
  have p2: "\<exists>total e. fst (roll R st s lbl) = Inr total
               \<and> int N * 1 + K \<le> total \<and> total \<le> int N * int M + K
               \<and> turn_log (snd (roll R st s lbl)) = turn_log st @ [e]"
    if a: "DICE_PATTERN s = Some (ct, sd, mt) \<and> groups_within_limit (ct, sd, mt)
            \<and> N = (if ct \<noteq> [] then nat_of_digits ct else 1) \<and> M = nat_of_digits sd
            \<and> K = (case mt of None \<Rightarrow> 0 | Some t \<Rightarrow> int_of_signed t)
            \<and> 1 \<le> N \<and> 1 \<le> M"
  proof -
    from a have ni: "\<not> INTEGER_PATTERN s" using integer_not_dice by fastforce
    from a have M1: "1 \<le> int M" by simp
    from roll_dice_contract [OF assms M1, of "rng st" N]
    obtain rs g' where rs: "roll_dice R (rng st) (int M) N = Some (rs, g')" "length rs = N"
      "\<forall>r \<in> set rs. 1 \<le> r \<and> r \<le> int M" by blast
    from sum_list_bounds [OF rs(3)] rs(2)
    have b: "int N \<le> sum_list rs" "sum_list rs \<le> int N * int M" by simp_all
    from a have un: "roll R st s lbl =
        (Inr (sum_list rs + K), log_roll (st\<lparr>rng := g'\<rparr>) (strip s) (sum_list rs + K) rs K lbl)"
      using roll_dice_unfold [OF ni, of ct sd mt N M K R st lbl] rs(1) by simp
    from b show ?thesis unfolding un by (simp add: log_roll_def)
  qed
  have p3: "raises_ValueError (fst (roll R st s lbl)) \<longleftrightarrow>
            (INTEGER_PATTERN s
               \<and> \<not> (int_accepts_padding s \<and> length (integer_digits s) \<le> int_max_str_digits))
            \<or> (\<not> INTEGER_PATTERN s
               \<and> (case DICE_PATTERN s of
                    None \<Rightarrow> True
                  | Some (ct', sd', mt') \<Rightarrow>
                      \<not> groups_within_limit (ct', sd', mt')
                      \<or> (if ct' \<noteq> [] then nat_of_digits ct' else 1) \<le> 0
                      \<or> nat_of_digits sd' \<le> 0))"
  proof (cases "INTEGER_PATTERN s")
    case True
    show ?thesis
    proof (cases "int_accepts_padding s \<and> length (integer_digits s) \<le> int_max_str_digits")
      case ok: True
      with True have "python_int s = Inr (int (nat_of_digits (integer_digits s)))"
        by (simp add: python_int_integer_accepts)
      with True ok show ?thesis by (simp add: roll_integer_unfold raises_ValueError_def)
    next
      case bad: False
      from python_int_integer_rejects [OF True bad] True bad show ?thesis
        by (auto simp: roll_integer_unfold raises_ValueError_def split: sum.splits exn.splits)
    qed
  next
    case False
    show ?thesis
    proof (cases "DICE_PATTERN s")
      case None
      with False show ?thesis by (simp add: roll_def raises_ValueError_def)
    next
      case (Some grp)
      obtain ct' sd' mt' where grp: "grp = (ct', sd', mt')" by (cases grp)
      let ?N = "if ct' \<noteq> [] then nat_of_digits ct' else 1"
      let ?M = "nat_of_digits sd'"
      note un = roll_dice_unfold [OF False Some [unfolded grp] refl refl refl, of R st lbl]
      show ?thesis
      proof (cases "\<not> groups_within_limit (ct', sd', mt') \<or> ?N \<le> 0 \<or> ?M \<le> 0")
        case True
        with False Some grp show ?thesis
          unfolding un by (auto simp: raises_ValueError_def)
      next
        case nz: False
        then have M1: "1 \<le> int ?M" by simp
        from roll_dice_contract [OF assms M1, of "rng st" ?N]
        obtain rs g' where "roll_dice R (rng st) (int ?M) ?N = Some (rs, g')" by blast
        with False Some grp nz show ?thesis
          unfolding un by (simp add: raises_ValueError_def)
      qed
    qed
  qed
  have p4: "raises_ValueError (fst (roll R st s lbl)) \<longrightarrow> snd (roll R st s lbl) = st"
  proof (cases "INTEGER_PATTERN s")
    case True
    then show ?thesis
      by (auto simp: roll_integer_unfold raises_ValueError_def split: sum.splits)
  next
    case False
    show ?thesis
    proof (cases "DICE_PATTERN s")
      case None
      with False show ?thesis by (simp add: roll_def)
    next
      case (Some grp)
      obtain ct' sd' mt' where grp: "grp = (ct', sd', mt')" by (cases grp)
      note un = roll_dice_unfold [OF False Some [unfolded grp] refl refl refl, of R st lbl]
      show ?thesis
        unfolding un by (auto simp: raises_ValueError_def split: option.splits)
    qed
  qed
  from p1 p2 p3 p4 show ?thesis by blast
qed

lemma example_integer:
  "INTEGER_PATTERN '' 12 '' \<and> int_accepts_padding '' 12 ''
   \<and> length (integer_digits '' 12 '') \<le> int_max_str_digits
   \<and> nat_of_digits (integer_digits '' 12 '') = 12"
  by (simp add: INTEGER_PATTERN_def int_accepts_padding_def integer_digits_def is_space_def
      is_digit_def int_space_def int_max_str_digits_def nat_of_digits_def digit_val_def)

lemma example_dice:
  "DICE_PATTERN ''2d6+3'' = Some (''2'', ''6'', Some ''+3'')
   \<and> groups_within_limit (''2'', ''6'', Some ''+3'')
   \<and> nat_of_digits ''2'' = 2 \<and> nat_of_digits ''6'' = 6 \<and> int_of_signed ''+3'' = 3"
  by (simp add: DICE_PATTERN_def groups_within_limit_def is_space_def is_digit_def
      int_max_str_digits_def nat_of_digits_def digit_val_def int_of_signed_def)

lemma example_zero_dice:
  "\<not> INTEGER_PATTERN ''0d6'' \<and> DICE_PATTERN ''0d6'' = Some (''0'', ''6'', None)
   \<and> nat_of_digits ''0'' = 0"
  by (simp add: INTEGER_PATTERN_def DICE_PATTERN_def is_space_def is_digit_def
      nat_of_digits_def digit_val_def)

text \<open>The contract at \<open>" 12 "\<close>, \<open>"2d6+3"\<close> and \<open>"0d6"\<close>, on the counter generator.\<close>

theorem roll_contract_witness:
  "randint_contract counter_random
   \<and> INTEGER_PATTERN '' 12 '' \<and> int_accepts_padding '' 12 ''
   \<and> length (integer_digits '' 12 '') \<le> int_max_str_digits
   \<and> fst (roll counter_random (new_session counter_random 5 []) '' 12 '' None) = Inr 12
   \<and> DICE_PATTERN ''2d6+3'' = Some (''2'', ''6'', Some ''+3'')
   \<and> groups_within_limit (''2'', ''6'', Some ''+3'')
   \<and> (\<exists>total e. fst (roll counter_random (new_session counter_random 5 []) ''2d6+3'' None) = Inr total
         \<and> 5 \<le> total \<and> total \<le> 15
         \<and> turn_log (snd (roll counter_random (new_session counter_random 5 []) ''2d6+3'' None)) = [e])
   \<and> DICE_PATTERN ''0d6'' = Some (''0'', ''6'', None)
   \<and> raises_ValueError (fst (roll counter_random (new_session counter_random 5 []) ''0d6'' None))
   \<and> snd (roll counter_random (new_session counter_random 5 []) ''0d6'' None) = new_session counter_random 5 []"
  using roll_contract [OF counter_random_contract, where s = "'' 12 ''"
          and st = "new_session counter_random 5 []" and lbl = None]
        roll_contract [OF counter_random_contract, where s = "''2d6+3''" and ct = "''2''"
          and sd = "''6''" and mt = "Some ''+3''" and N = 2 and M = 6 and K = 3
          and st = "new_session counter_random 5 []" and lbl = None]
        roll_contract [OF counter_random_contract, where s = "''0d6''"
          and st = "new_session counter_random 5 []" and lbl = None]
        counter_random_contract example_integer example_dice example_zero_dice
  by (simp add: new_session_def)

text \<open>
  The claim as stated fails where the integer pattern lets through what \<open>int\<close> refuses:
  the string of the separator U+001C and \<open>12\<close> matches the integer pattern (and not the
  dice pattern), and \<open>roll\<close> raises \<open>ValueError\<close> on it, logging nothing.
\<close>

theorem roll_contract_counterexample:
  "INTEGER_PATTERN (char_of (28::nat) # ''12'')
   \<and> DICE_PATTERN (char_of (28::nat) # ''12'') = None
   \<and> roll counter_random (new_session counter_random 5 []) (char_of (28::nat) # ''12'') None
       = (Inl (ValueError ''invalid literal for int() with base 10''),
          new_session counter_random 5 [])"
  by code_simp

section \<open>Replaying the consumed rolls\<close>

text \<open>
  C2. The claim: a fresh generator of seed \<open>s\<close> after \<open>_consume_rolls\<close> of \<open>k\<close> draws (one
  per component die rolled before) is in the state the \<open>k\<close> prior rolls left, so later
  rolls return what they return in the uninterrupted run. On the interpreter's generator
  the code does not do that: \<open>_consume_rolls\<close> discards \<open>random()\<close> draws of two words
  each, while a die is a \<open>randint\<close> of one word for each attempt. At seed 1 the first
  \<open>roll_d20\<close> returns 5 and logs one die; the second returns 19 in the uninterrupted run
  and 3 after the fast-forward by one draw, and the two generator states differ.
\<close>

theorem consume_rolls_replay_diverges:
  "fst (roll_d20 cpython_random (new_session cpython_random 1 []) None) = Inr 5
   \<and> count_rolls (snd (roll_d20 cpython_random (new_session cpython_random 1 []) None)) = 1
   \<and> fst (roll_d20 cpython_random
            (snd (roll_d20 cpython_random (new_session cpython_random 1 []) None)) None) = Inr 19
   \<and> fst (consume_rolls cpython_random (new_session cpython_random 1 []) 1) = Inr ()
   \<and> fst (roll_d20 cpython_random
            (snd (consume_rolls cpython_random (new_session cpython_random 1 []) 1)) None) = Inr 3
   \<and> rng (snd (consume_rolls cpython_random (new_session cpython_random 1 []) 1))
       \<noteq> rng (snd (roll_d20 cpython_random (new_session cpython_random 1 []) None))"
  by code_simp

section \<open>The status ledger: tick and apply\<close>

lemma normalize_names:
  "list_all (\<lambda>n. normalize_status n = Inr n) (map snd STATUS_CANONICAL)"
  by code_simp

lemma normalize_canonical:
  "n \<in> set (map snd STATUS_CANONICAL) \<Longrightarrow> normalize_status n = Inr n"
  using normalize_names unfolding list_all_iff by blast

lemma update_middle:
  "n \<notin> fst ` set pre \<Longrightarrow> AList.update n v (pre @ (n, e) # rest) = pre @ (n, v) # rest"
  by (induction pre) auto

lemma delete_middle:
  "n \<notin> fst ` set pre \<Longrightarrow> n \<notin> fst ` set rest \<Longrightarrow>
     AList.delete n (pre @ (n, e) # rest) = pre @ rest"
  by (induction pre) (auto simp: delete_id)

lemma tick_effect_turn:
  "wf_entry e \<Longrightarrow> tick_effect ''turn'' n e hpd = (e, hpd - turn_damage (n, e))"
  by (auto simp: tick_effect_def wf_entry_def turn_damage_def get_int_def split: option.splits)

lemma tick_effect_hp: "snd (tick_effect tk c e hpd) \<le> hpd"
proof -
  have "0 \<le> max 1 (get_int (stacks e) 1) * max 1 (get_int (level e) 1)"
    by simp
  then show ?thesis
    by (simp add: tick_effect_def Let_def) arith
qed

lemma tick_step_turn:
  assumes "normalize_status n = Inr n" and "wf_entry e"
  shows "tick_loop ''turn'' ((n, e) # items) (upd, hpd, ex) =
     (if expires (n, e)
      then tick_loop ''turn'' items (AList.delete n upd, hpd - turn_damage (n, e), ex @ [n])
      else tick_loop ''turn'' items
             (AList.update n (snd (decremented (n, e))) upd, hpd - turn_damage (n, e), ex))"
proof (cases e)
  case (fields s l d)
  show ?thesis
  proof (cases d)
    case None
    with fields assms(1) tick_effect_turn [OF assms(2), of n hpd] show ?thesis
      by (simp add: expires_def decremented_def)
  next
    case (Some dv)
    with fields assms(1) tick_effect_turn [OF assms(2), of n hpd] show ?thesis
      by (simp add: expires_def decremented_def)
  qed
qed

lemma tick_loop_turn:
  "distinct (map fst (pre @ items)) \<Longrightarrow>
   list_all (\<lambda>(n, e). n \<in> set (map snd STATUS_CANONICAL) \<and> wf_entry e) items \<Longrightarrow>
   tick_loop ''turn'' items (pre @ items, hpd, ex) =
     Inr (pre @ map decremented (filter (\<lambda>p. \<not> expires p) items),
          hpd - sum_list (map turn_damage items),
          ex @ map fst (filter expires items))"
proof (induction items arbitrary: pre hpd ex)
  case Nil
  then show ?case by simp
next
  case (Cons p items)
  obtain n e where p: "p = (n, e)" by (cases p)
  from Cons.prems p have can: "n \<in> set (map snd STATUS_CANONICAL)" and wf: "wf_entry e"
    and rest: "list_all (\<lambda>(n, e). n \<in> set (map snd STATUS_CANONICAL) \<and> wf_entry e) items"
    by simp_all
  from Cons.prems p have npre: "n \<notin> fst ` set pre" and nrest: "n \<notin> fst ` set items"
    by auto
  have norm: "normalize_status n = Inr n" using can by (rule normalize_canonical)
  note step = tick_step_turn [OF norm wf, of items "pre @ (n, e) # items" hpd ex]
  show ?case
  proof (cases "expires (n, e)")
    case True
    have dd: "distinct (map fst (pre @ items))" using Cons.prems p by simp
    have del: "AList.delete n (pre @ (n, e) # items) = pre @ items"
      using npre nrest by (rule delete_middle)
    from Cons.IH [OF dd rest, of "hpd - turn_damage (n, e)" "ex @ [n]"] True step del p
    show ?thesis by simp
  next
    case False
    let ?e = "snd (decremented (n, e))"
    have dd: "distinct (map fst ((pre @ [(n, ?e)]) @ items))" using Cons.prems p by simp
    have up: "AList.update n ?e (pre @ (n, e) # items) = pre @ (n, ?e) # items"
      using npre by (rule update_middle)
    have dec: "decremented (n, e) = (n, ?e)" by (simp add: decremented_def)
    from Cons.IH [OF dd rest, of "hpd - turn_damage (n, e)" ex] False step up p dec
    show ?thesis by simp
  qed
qed

lemma tick_step_other:
  assumes "normalize_status n = Inr n" and "tk \<noteq> ''turn''"
  shows "\<exists>e' hp'. tick_loop tk ((n, e) # items) (upd, hpd, ex) =
           tick_loop tk items (AList.update n e' upd, hp', ex)"
proof -
  obtain e1 hp1 where te: "tick_effect tk n e hpd = (e1, hp1)"
    by (cases "tick_effect tk n e hpd")
  with assms have "tick_loop tk ((n, e) # items) (upd, hpd, ex) =
           tick_loop tk items (AList.update n e1 upd, hp1, ex)"
    by (simp split: option.splits)
  then show ?thesis by blast
qed

lemma tick_loop_other:
  "tk \<noteq> ''turn'' \<Longrightarrow> distinct (map fst (pre @ items)) \<Longrightarrow>
   list_all (\<lambda>(n, e). n \<in> set (map snd STATUS_CANONICAL) \<and> wf_entry e) items \<Longrightarrow>
   \<exists>L' hp'. tick_loop tk items (pre @ items, hpd, ex) = Inr (pre @ L', hp', ex)
      \<and> map fst L' = map fst items"
proof (induction items arbitrary: pre hpd)
  case Nil
  then show ?case by simp
next
  case (Cons p items)
  obtain n e where p: "p = (n, e)" by (cases p)
  from Cons.prems p have can: "n \<in> set (map snd STATUS_CANONICAL)"
    and rest: "list_all (\<lambda>(n, e). n \<in> set (map snd STATUS_CANONICAL) \<and> wf_entry e) items"
    by simp_all
  from Cons.prems p have npre: "n \<notin> fst ` set pre" by auto
  have norm: "normalize_status n = Inr n" using can by (rule normalize_canonical)
  from tick_step_other [OF norm Cons.prems(1), of e items "pre @ (n, e) # items" hpd ex]
  obtain e' hp' where step: "tick_loop tk ((n, e) # items) (pre @ (n, e) # items, hpd, ex) =
     tick_loop tk items (AList.update n e' (pre @ (n, e) # items), hp', ex)" by blast
  have up: "AList.update n e' (pre @ (n, e) # items) = (pre @ [(n, e')]) @ items"
    using npre by (simp add: update_middle)
  have dd: "distinct (map fst ((pre @ [(n, e')]) @ items))" using Cons.prems p by simp
  from Cons.IH [OF Cons.prems(1) dd rest, of hp'] obtain L' hp'' where
    ih: "tick_loop tk items ((pre @ [(n, e')]) @ items, hp', ex) = Inr ((pre @ [(n, e')]) @ L', hp'', ex)"
      "map fst L' = map fst items" by blast
  from step up ih p have "tick_loop tk (p # items) (pre @ p # items, hpd, ex)
       = Inr (pre @ ((n, e') # L'), hp'', ex) \<and> map fst ((n, e') # L') = map fst (p # items)"
    by simp
  then show ?case by blast
qed

lemma tick_step_hp:
  "(\<exists>err. tick_loop tk ((n, e) # items) (upd, hpd, ex) = Inl err)
   \<or> (\<exists>upd' hp' ex'. hp' \<le> hpd
         \<and> tick_loop tk ((n, e) # items) (upd, hpd, ex) = tick_loop tk items (upd', hp', ex'))"
proof (cases "normalize_status n")
  case (Inl err)
  then show ?thesis by simp
next
  case (Inr c)
  obtain e1 hp1 where te: "tick_effect tk c e hpd = (e1, hp1)"
    by (cases "tick_effect tk c e hpd")
  with tick_effect_hp [of tk c e hpd] have le: "hp1 \<le> hpd" by simp
  have "\<exists>upd' ex'. tick_loop tk ((n, e) # items) (upd, hpd, ex)
          = tick_loop tk items (upd', hp1, ex')"
    using Inr te by (simp split: option.splits) blast
  with le show ?thesis by blast
qed

lemma tick_loop_hp:
  "tick_loop tk items (upd, hpd, ex) = Inr (L', d, ex') \<Longrightarrow> d \<le> hpd"
proof (induction items arbitrary: upd hpd ex)
  case Nil
  then show ?case by simp
next
  case (Cons p items)
  obtain n e where p: "p = (n, e)" by (cases p)
  from tick_step_hp [of tk n e items upd hpd ex] Cons.prems p
  obtain upd' hp' ex'' where "hp' \<le> hpd"
    "tick_loop tk items (upd', hp', ex'') = Inr (L', d, ex')" by auto
  with Cons.IH [of upd' hp' ex''] show ?case by simp
qed

lemma lower_strip_turn: "lower (strip ''turn'') = ''turn''"
  by code_simp

text \<open>
  C5. For every ledger of the data model (canonical, distinct names, \<open>stacks \<ge> 1\<close>,
  \<open>level \<ge> 1\<close>), a tick of type \<open>"turn"\<close> returns
  \<^item> the HP delta \<open>-(Bleeding stacks*level) - 2*(Ignited level) - 2*(Asphyxiation level) -
    (Toxin level)\<close>, summed over the present entries;
  \<^item> the ledger in which every entry with a numeric duration has it decremented by 1, and
    is removed when the decremented duration is 0 (or below);
  \<^item> the names of the removed entries as the expired list.

  For every ledger and every tick type, the returned HP delta is \<open>\<le> 0\<close>. For every ledger
  of the data model and every tick type, the tick returns, and an entry whose duration is
  \<open>None\<close> is still in the returned ledger and not in the expired list.
\<close>

theorem tick_statuses_turn:
  "(wf_ledger L \<longrightarrow>
      tick_statuses L ''turn'' =
        Inr (map decremented (filter (\<lambda>p. \<not> expires p) L),
             - sum_list (map turn_damage L),
             map fst (filter expires L)))
   \<and> (\<forall>L' d ex. tick_statuses L tick_type = Inr (L', d, ex) \<longrightarrow> d \<le> 0)
   \<and> (wf_ledger L \<and> (n, e) \<in> set L \<and> duration e = None \<longrightarrow>
        (\<exists>L' d ex. tick_statuses L tick_type = Inr (L', d, ex)
           \<and> n \<in> fst ` set L' \<and> n \<notin> set ex))"
proof -
  have turn: "tick_statuses L ''turn'' =
        Inr (map decremented (filter (\<lambda>p. \<not> expires p) L),
             - sum_list (map turn_damage L),
             map fst (filter expires L))" if wf: "wf_ledger L"
    using tick_loop_turn [of "[]" L 0 "[]"] wf
    by (simp add: tick_statuses_def wf_ledger_def lower_strip_turn)
  have heal: "\<forall>L' d ex. tick_statuses L tick_type = Inr (L', d, ex) \<longrightarrow> d \<le> 0"
    using tick_loop_hp [of "lower (strip tick_type)" L L 0 "[]"]
    by (auto simp: tick_statuses_def)
  have keep: "\<exists>L' d ex. tick_statuses L tick_type = Inr (L', d, ex)
           \<and> n \<in> fst ` set L' \<and> n \<notin> set ex"
    if a: "wf_ledger L \<and> (n, e) \<in> set L \<and> duration e = None"
  proof (cases "lower (strip tick_type) = ''turn''")
    case True
    from a have ne: "\<not> expires (n, e)" by (simp add: expires_def)
    with a have "decremented (n, e) \<in> set (map decremented (filter (\<lambda>p. \<not> expires p) L))"
      by simp
    then have "n \<in> fst ` set (map decremented (filter (\<lambda>p. \<not> expires p) L))"
      by (force simp: decremented_def)
    moreover from a have "distinct (map fst L)" by (simp add: wf_ledger_def)
    with a ne have "n \<notin> set (map fst (filter expires L))"
      by (auto dest: eq_key_imp_eq_value)
    moreover from a True have "tick_statuses L tick_type =
        Inr (map decremented (filter (\<lambda>p. \<not> expires p) L),
             - sum_list (map turn_damage L),
             map fst (filter expires L))"
      using tick_loop_turn [of "[]" L 0 "[]"]
      by (simp add: tick_statuses_def wf_ledger_def)
    ultimately show ?thesis by blast
  next
    case False
    from a tick_loop_other [OF False, of "[]" L 0 "[]"]
    obtain L' hp' where r: "tick_loop (lower (strip tick_type)) L (L, 0, []) = Inr (L', hp', [])"
      "map fst L' = map fst L" by (auto simp: wf_ledger_def)
    from a have "n \<in> set (map fst L)" by force
    with r(2) have "n \<in> fst ` set L'" by (metis set_map)
    with r(1) show ?thesis by (simp add: tick_statuses_def)
  qed
  from turn heal keep show ?thesis by blast
qed

lemma example_ledger_wf: "wf_ledger example_ledger"
  by code_simp

lemma example_ledger_tick:
  "tick_statuses example_ledger ''turn'' =
     Inr ([(''Bleeding'', \<lparr>stacks = Some 2, level = Some 3, duration = Some 1\<rparr>),
           (''Disease'', \<lparr>stacks = Some 1, level = Some 1, duration = None\<rparr>)],
          - 6, [''Stun''])"
  by code_simp

theorem tick_statuses_turn_witness:
  "wf_ledger example_ledger
   \<and> (''Disease'', \<lparr>stacks = Some 1, level = Some 1, duration = None\<rparr>) \<in> set example_ledger
   \<and> tick_statuses example_ledger ''turn'' =
       Inr (map decremented (filter (\<lambda>p. \<not> expires p) example_ledger),
            - sum_list (map turn_damage example_ledger),
            map fst (filter expires example_ledger))
   \<and> tick_statuses example_ledger ''turn'' =
       Inr ([(''Bleeding'', \<lparr>stacks = Some 2, level = Some 3, duration = Some 1\<rparr>),
             (''Disease'', \<lparr>stacks = Some 1, level = Some 1, duration = None\<rparr>)],
            - 6, [''Stun''])
   \<and> (\<exists>L' d ex. tick_statuses example_ledger ''turn'' = Inr (L', d, ex)
         \<and> d \<le> 0 \<and> ''Disease'' \<in> fst ` set L' \<and> ''Disease'' \<notin> set ex)"
  using tick_statuses_turn [of example_ledger "''turn''" "''Disease''"
          "\<lparr>stacks = Some 1, level = Some 1, duration = None\<rparr>"]
        example_ledger_wf example_ledger_tick
  by (simp add: example_ledger_def)

lemma get_entry_update: "get_entry (AList.update c e L) c = e"
  by (simp add: get_entry_def update_conv')

lemma get_entry_stacks:
  "wf_ledger L \<Longrightarrow> 0 \<le> get_int (stacks (get_entry L c)) 0"
proof (cases "map_of L c")
  case None
  then show ?thesis by (simp add: get_entry_def get_int_def)
next
  case (Some e)
  assume "wf_ledger L"
  moreover from Some have "(c, e) \<in> set L" by (rule map_of_SomeD)
  ultimately have "wf_entry e" by (auto simp: wf_ledger_def list_all_iff)
  with Some show ?thesis
    by (auto simp: get_entry_def get_int_def wf_entry_def split: option.splits)
qed

text \<open>
  C6, as the code has it. For every ledger of the data model and every name that
  \<open>normalize_status\<close> accepts, applying the status twice with \<open>stacks=1\<close> (and the same
  level and duration arguments) gives the ledger of applying it once with \<open>stacks=2\<close>. For
  every ledger, one application writes the entry \<open>e'\<close> merged from the existing entry (or
  the empty one): the stacks are added (with the floor 1 of the code, which does not show
  when the sum is at least 1), the level is the maximum and so does not decrease, and the
  duration is
  \<^item> the existing one when no duration is given and the status has no default;
  \<^item> the given-or-default one when the existing duration is \<open>None\<close>: an indefinite entry
    becomes a timed one;
  \<^item> the maximum of the two otherwise: a numeric duration stays numeric and does not
    decrease.
\<close>

theorem apply_status_algebra:
  assumes "normalize_status nm = Inr c"
  shows "(wf_ledger L \<longrightarrow>
            (case apply_status L nm 1 lv du of
               Inl err \<Rightarrow> Inl err
             | Inr L1 \<Rightarrow> apply_status L1 nm 1 lv du) = apply_status L nm 2 lv du)
       \<and> (\<exists>e'. apply_status L nm k lv du = Inr (AList.update c e' L)
             \<and> stacks e' = Some (max 1 (get_int (stacks (get_entry L c)) 0 + k))
             \<and> (1 \<le> get_int (stacks (get_entry L c)) 0 + k \<longrightarrow>
                  stacks e' = Some (get_int (stacks (get_entry L c)) 0 + k))
             \<and> level e' = Some (max (get_int (level (get_entry L c)) 0) lv)
             \<and> get_int (level (get_entry L c)) 0 \<le> the (level e')
             \<and> duration e' =
                 (case given_or_default du c of
                    None \<Rightarrow> duration (get_entry L c)
                  | Some d \<Rightarrow>
                      (case duration (get_entry L c) of
                         None \<Rightarrow> Some d
                       | Some existing \<Rightarrow> Some (max existing d)))
             \<and> (\<forall>x. duration (get_entry L c) = Some x \<longrightarrow>
                    (\<exists>y. duration e' = Some y \<and> x \<le> y)))"
proof -
  have assoc: "(case apply_status L nm 1 lv du of
               Inl err \<Rightarrow> Inl err
             | Inr L1 \<Rightarrow> apply_status L1 nm 1 lv du) = apply_status L nm 2 lv du"
    if wf: "wf_ledger L"
  proof -
    from get_entry_stacks [OF wf, of c] have "0 \<le> get_int (stacks (get_entry L c)) 0" .
    then show ?thesis
      using assms
      by (simp add: apply_status_def Let_def get_entry_update get_int_def ac_simps
          split: option.splits)
  qed
  have merge: "\<exists>e'. apply_status L nm k lv du = Inr (AList.update c e' L)
             \<and> stacks e' = Some (max 1 (get_int (stacks (get_entry L c)) 0 + k))
             \<and> (1 \<le> get_int (stacks (get_entry L c)) 0 + k \<longrightarrow>
                  stacks e' = Some (get_int (stacks (get_entry L c)) 0 + k))
             \<and> level e' = Some (max (get_int (level (get_entry L c)) 0) lv)
             \<and> get_int (level (get_entry L c)) 0 \<le> the (level e')
             \<and> duration e' =
                 (case given_or_default du c of
                    None \<Rightarrow> duration (get_entry L c)
                  | Some d \<Rightarrow>
                      (case duration (get_entry L c) of
                         None \<Rightarrow> Some d
                       | Some existing \<Rightarrow> Some (max existing d)))
             \<and> (\<forall>x. duration (get_entry L c) = Some x \<longrightarrow>
                    (\<exists>y. duration e' = Some y \<and> x \<le> y))"
  proof -
    define e0 where "e0 = get_entry L c"
    define e2 where "e2 = e0\<lparr>stacks := Some (max 1 (get_int (stacks e0) 0 + k)),
                              level := Some (max (get_int (level e0) 0) lv)\<rparr>"
    define e3 where "e3 = (case given_or_default du c of
                             None \<Rightarrow> e2
                           | Some d \<Rightarrow>
                               (case duration e2 of
                                  None \<Rightarrow> e2\<lparr>duration := Some d\<rparr>
                                | Some existing \<Rightarrow> e2\<lparr>duration := Some (max existing d)\<rparr>))"
    have r: "apply_status L nm k lv du = Inr (AList.update c e3 L)"
      using assms
      by (simp add: apply_status_def Let_def e3_def e2_def e0_def split: option.splits)
    have s: "stacks e3 = Some (max 1 (get_int (stacks e0) 0 + k))"
      by (simp add: e3_def e2_def split: option.splits)
    have l: "level e3 = Some (max (get_int (level e0) 0) lv)"
      by (simp add: e3_def e2_def split: option.splits)
    have d: "duration e3 =
                 (case given_or_default du c of
                    None \<Rightarrow> duration e0
                  | Some d \<Rightarrow>
                      (case duration e0 of
                         None \<Rightarrow> Some d
                       | Some existing \<Rightarrow> Some (max existing d)))"
      by (simp add: e3_def e2_def split: option.splits)
    have m: "\<forall>x. duration e0 = Some x \<longrightarrow> (\<exists>y. duration e3 = Some y \<and> x \<le> y)"
      by (simp add: d split: option.splits)
    from r s l d m show ?thesis
      unfolding e0_def [symmetric] by (intro exI [of _ e3]) simp
  qed
  from assoc merge show ?thesis by blast
qed

lemma normalize_bleeding: "normalize_status '' bleeding'' = Inr ''Bleeding''"
  by code_simp

lemma example_apply_twice:
  "apply_status example_ledger '' bleeding'' 2 1 None =
     Inr [(''Bleeding'', \<lparr>stacks = Some 4, level = Some 3, duration = Some 3\<rparr>),
          (''Stun'', \<lparr>stacks = Some 1, level = Some 1, duration = Some 1\<rparr>),
          (''Disease'', \<lparr>stacks = Some 1, level = Some 1, duration = None\<rparr>)]"
  by code_simp

theorem apply_status_algebra_witness:
  "normalize_status '' bleeding'' = Inr ''Bleeding'' \<and> wf_ledger example_ledger
   \<and> (case apply_status example_ledger '' bleeding'' 1 1 None of
         Inl err \<Rightarrow> Inl err
       | Inr L1 \<Rightarrow> apply_status L1 '' bleeding'' 1 1 None)
       = Inr [(''Bleeding'', \<lparr>stacks = Some 4, level = Some 3, duration = Some 3\<rparr>),
              (''Stun'', \<lparr>stacks = Some 1, level = Some 1, duration = Some 1\<rparr>),
              (''Disease'', \<lparr>stacks = Some 1, level = Some 1, duration = None\<rparr>)]"
  using apply_status_algebra [OF normalize_bleeding, of example_ledger 1 None 2]
        normalize_bleeding example_ledger_wf example_apply_twice
  by simp

text \<open>
  The claim as stated fails for an entry of indefinite duration: applying Concentration
  with \<open>duration=1\<close> to a ledger that holds Concentration with duration \<open>None\<close> leaves it
  the duration 1. Before, a turn tick kept the entry; after, the next turn tick removes it.
\<close>

theorem apply_status_duration_counterexample:
  "wf_ledger [(''Concentration'', \<lparr>stacks = Some 1, level = Some 1, duration = None\<rparr>)]
   \<and> apply_status [(''Concentration'', \<lparr>stacks = Some 1, level = Some 1, duration = None\<rparr>)]
         ''Concentration'' 1 1 (Some 1)
       = Inr [(''Concentration'', \<lparr>stacks = Some 2, level = Some 1, duration = Some 1\<rparr>)]
   \<and> tick_statuses [(''Concentration'', \<lparr>stacks = Some 1, level = Some 1, duration = None\<rparr>)]
         ''turn''
       = Inr ([(''Concentration'', \<lparr>stacks = Some 1, level = Some 1, duration = None\<rparr>)], 0, [])
   \<and> tick_statuses [(''Concentration'', \<lparr>stacks = Some 2, level = Some 1, duration = Some 1\<rparr>)]
         ''turn''
       = Inr ([], 0, [''Concentration''])"
  by code_simp

section \<open>The router's cascade\<close>

lemma resolve_protocol_value: "resolve_protocol_id (protocol_value p) = Some p"
  by (cases p) (simp_all add: resolve_protocol_id_def protocol_ids_def)

lemma resolve_protocol_id_Some:
  "resolve_protocol_id v = Some p \<longleftrightarrow> protocol_value p = v"
proof
  assume "resolve_protocol_id v = Some p"
  then show "protocol_value p = v"
    by (auto simp: resolve_protocol_id_def find_Some_iff)
next
  assume "protocol_value p = v"
  with resolve_protocol_value [of p] show "resolve_protocol_id v = Some p" by simp
qed

lemma resolve_protocol_id_None:
  "resolve_protocol_id v = None \<longleftrightarrow> (\<forall>p. protocol_value p \<noteq> v)"
proof (cases "resolve_protocol_id v")
  case None
  have "protocol_value p \<noteq> v" for p
  proof
    assume "protocol_value p = v"
    then have "resolve_protocol_id v = Some p" by (simp add: resolve_protocol_id_Some)
    with None show False by simp
  qed
  with None show ?thesis by simp
next
  case (Some q)
  then have "protocol_value q = v" by (simp add: resolve_protocol_id_Some)
  with Some show ?thesis by auto
qed

text \<open>
  C8. For every envelope \<open>e\<close> and session state \<open>ss\<close> (a dict or \<open>None\<close>):
  \<^item> if the mode is \<open>"ooc"\<close> or clarifying questions are present, the decision is the
    clarification protocol with \<open>execute = False\<close> and \<open>freeze_time = True\<close>, whatever the
    protocol id;
  \<^item> otherwise, if the protocol id is the value of no member of the registry, the decision
    does not execute and is frozen: with developer mode off it is the clarification
    protocol with the restate question, with developer mode on the rule-edge-case protocol;
  \<^item> otherwise, if the confidence is \<open>"low"\<close> and the resolved protocol \<open>p\<close> is not in the
    safe set, the decision is forced to clarification, frozen and not executing;
  \<^item> otherwise the decision executes protocol \<open>p\<close>, frozen exactly when the registry entry
    of \<open>p\<close> has the time policy \<open>"freeze"\<close>.
  The safe set is the one the claim lists.
\<close>

theorem route_envelope_cascade:
  "(mode e = ''ooc'' \<or> env_ooc_questions e \<noteq> [] \<longrightarrow>
      route_envelope e ss =
        \<lparr>protocol_id = PROTO_CLARIFICATION, freeze_time = True, execute = False,
         reason = Some ''ooc'', dev_report = None,
         ooc_questions = Some (env_ooc_questions e)\<rparr>)
   \<and> (\<not> (mode e = ''ooc'' \<or> env_ooc_questions e \<noteq> [])
        \<and> (\<forall>q. protocol_value q \<noteq> env_protocol_id e)
        \<and> \<not> dev_mode_enabled (case ss of None \<Rightarrow> [] | Some d \<Rightarrow> d) \<longrightarrow>
      route_envelope e ss =
        \<lparr>protocol_id = PROTO_CLARIFICATION, freeze_time = True, execute = False,
         reason = Some ''unknown_protocol'', dev_report = None,
         ooc_questions = Some [''Protocol not recognized. Can you restate your request?'']\<rparr>)
   \<and> (\<not> (mode e = ''ooc'' \<or> env_ooc_questions e \<noteq> [])
        \<and> (\<forall>q. protocol_value q \<noteq> env_protocol_id e)
        \<and> dev_mode_enabled (case ss of None \<Rightarrow> [] | Some d \<Rightarrow> d) \<longrightarrow>
      protocol_id (route_envelope e ss) = PROTO_RULE_EDGE_CASE
      \<and> freeze_time (route_envelope e ss) \<and> \<not> execute (route_envelope e ss))
   \<and> (\<not> (mode e = ''ooc'' \<or> env_ooc_questions e \<noteq> [])
        \<and> protocol_value p = env_protocol_id e
        \<and> confidence e = ''low'' \<and> p \<notin> SAFE_PROTOCOLS \<longrightarrow>
      route_envelope e ss =
        \<lparr>protocol_id = PROTO_CLARIFICATION, freeze_time = True, execute = False,
         reason = Some ''low_confidence'', dev_report = None,
         ooc_questions =
           Some [''I need a bit more detail to proceed safely. What should I focus on?'']\<rparr>)
   \<and> (\<not> (mode e = ''ooc'' \<or> env_ooc_questions e \<noteq> [])
        \<and> protocol_value p = env_protocol_id e
        \<and> \<not> (confidence e = ''low'' \<and> p \<notin> SAFE_PROTOCOLS) \<longrightarrow>
      route_envelope e ss =
        \<lparr>protocol_id = p,
         freeze_time = (time_policy (PROTOCOL_REGISTRY p) = ''freeze''),
         execute = True, reason = Some ''ok'', dev_report = None, ooc_questions = None\<rparr>)
   \<and> SAFE_PROTOCOLS =
        {PROTO_CLARIFICATION, PROTO_ROUTINE, PROTO_EXPLORATION, PROTO_DOWNTIME,
         PROTO_CONTENT_GAP, PROTO_RULE_EDGE_CASE, PROTO_MEMORY_PROMOTION, PROTO_MEMORY_RECALL}"
proof -
  have c1: "mode e = ''ooc'' \<or> env_ooc_questions e \<noteq> [] \<longrightarrow>
      route_envelope e ss =
        \<lparr>protocol_id = PROTO_CLARIFICATION, freeze_time = True, execute = False,
         reason = Some ''ooc'', dev_report = None,
         ooc_questions = Some (env_ooc_questions e)\<rparr>"
    by (simp add: route_envelope_def)
  have none: "resolve_protocol_id (env_protocol_id e) = None"
    if "\<forall>q. protocol_value q \<noteq> env_protocol_id e"
    using that by (simp add: resolve_protocol_id_None)
  have some: "resolve_protocol_id (env_protocol_id e) = Some p"
    if "protocol_value p = env_protocol_id e"
    using that by (simp add: resolve_protocol_id_Some)
  have c2: "\<not> (mode e = ''ooc'' \<or> env_ooc_questions e \<noteq> [])
        \<and> (\<forall>q. protocol_value q \<noteq> env_protocol_id e)
        \<and> \<not> dev_mode_enabled (case ss of None \<Rightarrow> [] | Some d \<Rightarrow> d) \<longrightarrow>
      route_envelope e ss =
        \<lparr>protocol_id = PROTO_CLARIFICATION, freeze_time = True, execute = False,
         reason = Some ''unknown_protocol'', dev_report = None,
         ooc_questions = Some [''Protocol not recognized. Can you restate your request?'']\<rparr>"
    using none by (simp add: route_envelope_def)
  have c3: "\<not> (mode e = ''ooc'' \<or> env_ooc_questions e \<noteq> [])
        \<and> (\<forall>q. protocol_value q \<noteq> env_protocol_id e)
        \<and> dev_mode_enabled (case ss of None \<Rightarrow> [] | Some d \<Rightarrow> d) \<longrightarrow>
      protocol_id (route_envelope e ss) = PROTO_RULE_EDGE_CASE
      \<and> freeze_time (route_envelope e ss) \<and> \<not> execute (route_envelope e ss)"
    using none by (simp add: route_envelope_def)
  have c4: "\<not> (mode e = ''ooc'' \<or> env_ooc_questions e \<noteq> [])
        \<and> protocol_value p = env_protocol_id e
        \<and> confidence e = ''low'' \<and> p \<notin> SAFE_PROTOCOLS \<longrightarrow>
      route_envelope e ss =
        \<lparr>protocol_id = PROTO_CLARIFICATION, freeze_time = True, execute = False,
         reason = Some ''low_confidence'', dev_report = None,
         ooc_questions =
           Some [''I need a bit more detail to proceed safely. What should I focus on?'']\<rparr>"
    using some by (simp add: route_envelope_def)
  have c5: "\<not> (mode e = ''ooc'' \<or> env_ooc_questions e \<noteq> [])
        \<and> protocol_value p = env_protocol_id e
        \<and> \<not> (confidence e = ''low'' \<and> p \<notin> SAFE_PROTOCOLS) \<longrightarrow>
      route_envelope e ss =
        \<lparr>protocol_id = p,
         freeze_time = (time_policy (PROTOCOL_REGISTRY p) = ''freeze''),
         execute = True, reason = Some ''ok'', dev_report = None, ooc_questions = None\<rparr>"
    using some by (auto simp: route_envelope_def)
  from c1 c2 c3 c4 c5 show ?thesis by (simp add: SAFE_PROTOCOLS_def)
qed

text \<open>
  Five envelopes, one for each branch: an out-of-character turn; an unknown protocol id
  with developer mode off and with developer mode on; a low-confidence invention; a
  high-confidence catastrophic turn, which executes frozen.
\<close>

lemma example_unknown_protocol: "\<forall>q. protocol_value q \<noteq> ''PROTO_DANCE''"
proof
  fix q show "protocol_value q \<noteq> ''PROTO_DANCE''" by (cases q) simp_all
qed

lemma example_dev_mode:
  "\<not> dev_mode_enabled [] \<and> dev_mode_enabled [(''settings'', JDict [(''dev_mode'', JStr ''True'')])]"
  by code_simp

theorem route_envelope_cascade_witness:
  "route_envelope (example_envelope ''ooc'' ''PROTO_ROUTINE'' ''high'') None =
     \<lparr>protocol_id = PROTO_CLARIFICATION, freeze_time = True, execute = False,
      reason = Some ''ooc'', dev_report = None, ooc_questions = Some []\<rparr>
   \<and> route_envelope (example_envelope ''gm'' ''PROTO_DANCE'' ''high'') None =
     \<lparr>protocol_id = PROTO_CLARIFICATION, freeze_time = True, execute = False,
      reason = Some ''unknown_protocol'', dev_report = None,
      ooc_questions = Some [''Protocol not recognized. Can you restate your request?'']\<rparr>
   \<and> protocol_id (route_envelope (example_envelope ''gm'' ''PROTO_DANCE'' ''high'')
        (Some [(''settings'', JDict [(''dev_mode'', JStr ''True'')])])) = PROTO_RULE_EDGE_CASE
   \<and> route_envelope (example_envelope ''gm'' ''PROTO_INVENTION'' ''low'') None =
     \<lparr>protocol_id = PROTO_CLARIFICATION, freeze_time = True, execute = False,
      reason = Some ''low_confidence'', dev_report = None,
      ooc_questions =
        Some [''I need a bit more detail to proceed safely. What should I focus on?'']\<rparr>
   \<and> route_envelope (example_envelope ''gm'' ''PROTO_CATASTROPHIC'' ''high'') None =
     \<lparr>protocol_id = PROTO_CATASTROPHIC, freeze_time = True, execute = True,
      reason = Some ''ok'', dev_report = None, ooc_questions = None\<rparr>"
proof -
  have c1: "route_envelope (example_envelope ''ooc'' ''PROTO_ROUTINE'' ''high'') None =
     \<lparr>protocol_id = PROTO_CLARIFICATION, freeze_time = True, execute = False,
      reason = Some ''ooc'', dev_report = None, ooc_questions = Some []\<rparr>"
    using route_envelope_cascade [of "example_envelope ''ooc'' ''PROTO_ROUTINE'' ''high''" None]
    by (simp add: example_envelope_def)
  have c2: "route_envelope (example_envelope ''gm'' ''PROTO_DANCE'' ''high'') None =
     \<lparr>protocol_id = PROTO_CLARIFICATION, freeze_time = True, execute = False,
      reason = Some ''unknown_protocol'', dev_report = None,
      ooc_questions = Some [''Protocol not recognized. Can you restate your request?'']\<rparr>"
    using route_envelope_cascade [of "example_envelope ''gm'' ''PROTO_DANCE'' ''high''" None]
      example_unknown_protocol example_dev_mode
    by (simp add: example_envelope_def)
  have c3: "protocol_id (route_envelope (example_envelope ''gm'' ''PROTO_DANCE'' ''high'')
        (Some [(''settings'', JDict [(''dev_mode'', JStr ''True'')])])) = PROTO_RULE_EDGE_CASE"
    using route_envelope_cascade [of "example_envelope ''gm'' ''PROTO_DANCE'' ''high''"
          "Some [(''settings'', JDict [(''dev_mode'', JStr ''True'')])]"]
      example_unknown_protocol example_dev_mode
    by (simp add: example_envelope_def)
  have c4: "route_envelope (example_envelope ''gm'' ''PROTO_INVENTION'' ''low'') None =
     \<lparr>protocol_id = PROTO_CLARIFICATION, freeze_time = True, execute = False,
      reason = Some ''low_confidence'', dev_report = None,
      ooc_questions =
        Some [''I need a bit more detail to proceed safely. What should I focus on?'']\<rparr>"
    using route_envelope_cascade [of "example_envelope ''gm'' ''PROTO_INVENTION'' ''low''" None
          PROTO_INVENTION]
    by (simp add: example_envelope_def SAFE_PROTOCOLS_def)
  have c5: "route_envelope (example_envelope ''gm'' ''PROTO_CATASTROPHIC'' ''high'') None =
     \<lparr>protocol_id = PROTO_CATASTROPHIC, freeze_time = True, execute = True,
      reason = Some ''ok'', dev_report = None, ooc_questions = None\<rparr>"
    using route_envelope_cascade [of "example_envelope ''gm'' ''PROTO_CATASTROPHIC'' ''high''" None
          PROTO_CATASTROPHIC]
    by (simp add: example_envelope_def)
  from c1 c2 c3 c4 c5 show ?thesis by blast
qed

section \<open>Combat: damage, block and integer formulas\<close>

lemma roll_damage_integer:
  assumes "INTEGER_PATTERN f" and "roll_damage R s f b c = (Inr v, s')"
  shows "v = b"
proof (cases "python_int f")
  case (Inl e)
  with assms show ?thesis by (simp add: roll_damage_def roll_integer_unfold)
next
  case (Inr n)
  with assms show ?thesis
    by (auto simp: roll_damage_def roll_integer_unfold log_roll_def)
qed

text \<open>What a returned result of \<open>resolve_attack\<close> says about the steps that made it.\<close>

lemma resolve_attack_returns:
  assumes "resolve_attack R session attacker defender cs eff react rb rap aro cro
             = (Inr (res, a, d), s')"
  shows "\<exists>roll_v s1. override_or_roll_d20 R session aro = (Inr roll_v, s1)
      \<and> attack_roll res = roll_v \<and> crit res = (roll_v \<ge> 19)
      \<and> attack_total res = roll_v + skill attacker + attr attacker + attack_bonus attacker
                             - (if cs then CALLED_SHOT_PENALTY else 0)
      \<and> target_ar res = armor_rating defender + dodge_bonus react rb
      \<and> hit res = (attack_total res \<ge> target_ar res)
      \<and> ap_before res = ap defender + (if react = Some ''block'' then rap else 0)
      \<and> hp_before res = hp defender
      \<and> ap d = ap_after res \<and> hp d = hp_after res
      \<and> (\<not> hit res \<longrightarrow> damage res = 0 \<and> ap_after res = ap defender \<and> hp_after res = hp defender)
      \<and> (hit res \<longrightarrow>
            (\<exists>sts s2. resolve_hit R s1 attacker defender cs
                         (if cs \<and> eff = None then Some ''disarm'' else eff)
                         (if react = Some ''block'' then rap else 0) (roll_v \<ge> 19)
                       = (Inr (damage res, ap_after res, hp_after res, sts), s2)))"
  using assms unfolding resolve_attack_def Let_def
  by (auto split: if_splits prod.splits sum.splits)

lemma resolve_hit_returns:
  assumes "resolve_hit R s1 attacker defender cs eff block_ap crit_v
             = (Inr (dmg, ap_v, hp_v, sts), s2)"
  shows "\<exists>w. weapon attacker = Some w
      \<and> roll_damage R s1 (Weapon.damage w) (bonus w + damage_bonus attacker) crit_v
          = (Inr dmg, s2)
      \<and> (ap_v, hp_v) = (if block_ap \<noteq> 0
                         then apply_damage_with_block (ap defender) (hp defender) dmg block_ap
                         else apply_damage (ap defender) (hp defender) dmg)"
  using assms unfolding resolve_hit_def
  by (auto split: if_splits prod.splits sum.splits option.splits)

text \<open>
  C10. For every call of \<open>resolve_attack\<close> that returns a hit, when the attacker's weapon
  has a damage formula of the integer pattern (a bare non-negative integer), the damage of
  the result is the weapon's flat bonus plus the attacker's damage bonus, whether the hit
  is critical or not: the integer itself adds nothing.
\<close>

theorem integer_weapon_damage:
  assumes "resolve_attack R session attacker defender cs eff react rb rap aro cro
             = (Inr (res, a, d), s')"
    and "hit res" and "weapon attacker = Some w" and "INTEGER_PATTERN (Weapon.damage w)"
  shows "damage res = bonus w + damage_bonus attacker"
proof -
  from resolve_attack_returns [OF assms(1)] assms(2)
  obtain roll_v :: int and s1 sts s2 where
    "resolve_hit R s1 attacker defender cs (if cs \<and> eff = None then Some ''disarm'' else eff)
       (if react = Some ''block'' then rap else 0) (roll_v \<ge> 19)
     = (Inr (damage res, ap_after res, hp_after res, sts), s2)" by blast
  from resolve_hit_returns [OF this] assms(3)
  have "roll_damage R s1 (Weapon.damage w) (bonus w + damage_bonus attacker) (roll_v \<ge> 19)
          = (Inr (damage res), s2)" by auto
  with assms(4) show ?thesis by (rule roll_damage_integer)
qed


text \<open>
  A critical hit (an attack roll of 20) with the weapon formula \<open>"5"\<close>, weapon bonus 1 and
  damage bonus 0: the damage is 1.
\<close>

lemma example_integer_attack:
  "fst (resolve_attack counter_random (new_session counter_random 1 [])
          (example_attacker ''5'' 0) example_defender False None None 0 0 (Some 20) None)
   = Inr (\<lparr>hit = True, crit = True, attack_roll = 20, attack_total = 23, target_ar = 10,
           damage = 1, ap_before = 5, ap_after = 4, hp_before = 10, hp_after = 10,
           called_shot_effect = None, counter = None\<rparr>,
          example_attacker ''5'' 0,
          example_defender\<lparr>ap := 4, hp := 10, statuses := []\<rparr>)"
  by code_simp

theorem integer_weapon_damage_witness:
  "fst (resolve_attack counter_random (new_session counter_random 1 [])
          (example_attacker ''5'' 0) example_defender False None None 0 0 (Some 20) None)
   = Inr (\<lparr>hit = True, crit = True, attack_roll = 20, attack_total = 23, target_ar = 10,
           damage = 1, ap_before = 5, ap_after = 4, hp_before = 10, hp_after = 10,
           called_shot_effect = None, counter = None\<rparr>,
          example_attacker ''5'' 0,
          example_defender\<lparr>ap := 4, hp := 10, statuses := []\<rparr>)
   \<and> weapon (example_attacker ''5'' 0)
       = Some \<lparr>Weapon.name = ''Club'', Weapon.damage = ''5'', bonus = 1, tags = []\<rparr>
   \<and> INTEGER_PATTERN ''5''
   \<and> (1::int) = 1 + damage_bonus (example_attacker ''5'' 0)"
proof -
  let ?call = "resolve_attack counter_random (new_session counter_random 1 [])
          (example_attacker ''5'' 0) example_defender False None None 0 0 (Some 20) None"
  let ?res = "\<lparr>hit = True, crit = True, attack_roll = 20, attack_total = 23, target_ar = 10,
           damage = 1, ap_before = 5, ap_after = 4, hp_before = 10, hp_after = 10,
           called_shot_effect = None, counter = None\<rparr>"
  let ?w = "\<lparr>Weapon.name = ''Club'', Weapon.damage = ''5'', bonus = 1, tags = []\<rparr>"
  have ev: "?call = (Inr (?res, example_attacker ''5'' 0,
                          example_defender\<lparr>ap := 4, hp := 10, statuses := []\<rparr>), snd ?call)"
    using example_integer_attack by (simp add: prod_eq_iff)
  have w: "weapon (example_attacker ''5'' 0) = Some ?w"
    by (simp add: example_attacker_def)
  have ip: "INTEGER_PATTERN (Weapon.damage ?w)"
    by (simp add: INTEGER_PATTERN_def is_space_def is_digit_def)
  have h: "hit ?res" by simp
  from integer_weapon_damage [OF ev h w ip] example_integer_attack w ip show ?thesis
    by (simp add: example_attacker_def)
qed

text \<open>
  C3. The claim: on a hit the damage is the weapon's dice roll (dice doubled on a
  critical), plus the weapon's bonus, plus the attacker's damage bonus. With the weapon
  formula \<open>"5"\<close>, which \<open>roll\<close> returns as 5, weapon bonus 1 and damage bonus 0, the damage
  of a hit that is not critical should be 6, leaving the defender 0 AP and 9 HP of 5 and
  10. The code deals 1, leaving 4 AP and 10 HP: \<open>_roll_damage\<close> discards what \<open>roll\<close>
  returned and computes the damage from the dice of the logged entry, which an integer
  formula does not have.
\<close>

theorem integer_formula_damage_lost:
  "fst (roll counter_random (new_session counter_random 1 []) ''5'' None) = Inr 5
   \<and> fst (resolve_attack counter_random (new_session counter_random 1 [])
          (example_attacker ''5'' 0) example_defender False None None 0 0 (Some 10) None)
   = Inr (\<lparr>hit = True, crit = False, attack_roll = 10, attack_total = 13, target_ar = 10,
           damage = 1, ap_before = 5, ap_after = 4, hp_before = 10, hp_after = 10,
           called_shot_effect = None, counter = None\<rparr>,
          example_attacker ''5'' 0,
          example_defender\<lparr>ap := 4, hp := 10, statuses := []\<rparr>)"
  by code_simp

lemma apply_damage_values:
  "apply_damage a h dmg = (max 0 (a - dmg), max 0 (h - max 0 (dmg - a)))"
  by (simp add: apply_damage_def Let_def)

lemma apply_damage_with_block_values:
  "apply_damage_with_block a h dmg b
     = (min (max 0 (a + b - dmg)) a, max 0 (h - max 0 (dmg - (a + b))))"
  by (simp add: apply_damage_with_block_def apply_damage_def Let_def)

text \<open>
  C4, as the code has it. For every call of \<open>resolve_attack\<close> with the reaction \<open>"block"\<close>
  and block AP \<open>b\<close> that returns:
  \<^item> the reported \<open>ap_before\<close> is the defender's base AP plus \<open>b\<close>;
  \<^item> on a hit the damage is absorbed against base AP plus \<open>b\<close> before it reduces HP;
  \<^item> on a hit with \<open>b \<noteq> 0\<close> the remaining AP is what base AP plus \<open>b\<close> keeps of the damage,
    capped at the base AP; with \<open>b = 0\<close> the code takes the path without block, and the
    remaining AP is what the base AP keeps of the damage, with no cap;
  \<^item> so the remaining AP is at most the base AP when \<open>b \<noteq> 0\<close>, and also when the damage
    and the base AP are not negative; on a miss AP and HP are unchanged;
  \<^item> the returned defender has the remaining AP and HP of the result.
\<close>

theorem block_ap_semantics:
  assumes "resolve_attack R session attacker defender cs eff (Some ''block'') rb b aro cro
             = (Inr (res, a, d), s')"
  shows "ap_before res = ap defender + b
       \<and> (hit res \<longrightarrow>
            hp_after res = max 0 (hp defender - max 0 (damage res - (ap defender + b)))
          \<and> ap_after res = (if b \<noteq> 0 then min (max 0 (ap defender + b - damage res)) (ap defender)
                             else max 0 (ap defender - damage res)))
       \<and> (\<not> hit res \<longrightarrow> ap_after res = ap defender \<and> hp_after res = hp defender)
       \<and> (b \<noteq> 0 \<or> (0 \<le> damage res \<and> 0 \<le> ap defender) \<longrightarrow> ap_after res \<le> ap defender)
       \<and> ap d = ap_after res \<and> hp d = hp_after res"
proof -
  from resolve_attack_returns [OF assms]
  obtain roll_v :: int and s1 where r:
    "ap_before res = ap defender + b" "ap d = ap_after res" "hp d = hp_after res"
    "\<not> hit res \<longrightarrow> damage res = 0 \<and> ap_after res = ap defender \<and> hp_after res = hp defender"
    "hit res \<longrightarrow>
       (\<exists>sts s2. resolve_hit R s1 attacker defender cs
                    (if cs \<and> eff = None then Some ''disarm'' else eff) b (roll_v \<ge> 19)
                  = (Inr (damage res, ap_after res, hp_after res, sts), s2))"
    by auto
  have hitc: "hp_after res = max 0 (hp defender - max 0 (damage res - (ap defender + b)))
          \<and> ap_after res = (if b \<noteq> 0 then min (max 0 (ap defender + b - damage res)) (ap defender)
                             else max 0 (ap defender - damage res))" if h: "hit res"
  proof -
    from r(5) h obtain sts s2 where
      "resolve_hit R s1 attacker defender cs
         (if cs \<and> eff = None then Some ''disarm'' else eff) b (roll_v \<ge> 19)
       = (Inr (damage res, ap_after res, hp_after res, sts), s2)" by blast
    from resolve_hit_returns [OF this]
    have "(ap_after res, hp_after res) =
            (if b \<noteq> 0
             then apply_damage_with_block (ap defender) (hp defender) (damage res) b
             else apply_damage (ap defender) (hp defender) (damage res))" by blast
    then show ?thesis
      by (simp add: apply_damage_values apply_damage_with_block_values split: if_splits)
  qed
  have cap: "ap_after res \<le> ap defender"
    if c: "b \<noteq> 0 \<or> (0 \<le> damage res \<and> 0 \<le> ap defender)"
  proof (cases "hit res")
    case True
    from hitc [OF True] c show ?thesis by (auto split: if_splits)
  next
    case False
    with r(4) show ?thesis by simp
  qed
  from r(1,2,3,4) hitc cap show ?thesis by blast
qed

text \<open>
  A block of 3 AP against a hit of 2 damage: AP before is 8, the remaining AP is capped at
  the base AP 5, and HP is untouched.
\<close>

lemma example_block_attack:
  "fst (resolve_attack counter_random (new_session counter_random 1 [])
          (example_attacker ''1d1'' 0) example_defender False None (Some ''block'') 0 3
          (Some 10) None)
   = Inr (\<lparr>hit = True, crit = False, attack_roll = 10, attack_total = 13, target_ar = 10,
           damage = 2, ap_before = 8, ap_after = 5, hp_before = 10, hp_after = 10,
           called_shot_effect = None, counter = None\<rparr>,
          example_attacker ''1d1'' 0,
          example_defender\<lparr>ap := 5, hp := 10, statuses := []\<rparr>)"
  by code_simp

theorem block_ap_semantics_witness:
  "fst (resolve_attack counter_random (new_session counter_random 1 [])
          (example_attacker ''1d1'' 0) example_defender False None (Some ''block'') 0 3
          (Some 10) None)
   = Inr (\<lparr>hit = True, crit = False, attack_roll = 10, attack_total = 13, target_ar = 10,
           damage = 2, ap_before = 8, ap_after = 5, hp_before = 10, hp_after = 10,
           called_shot_effect = None, counter = None\<rparr>,
          example_attacker ''1d1'' 0,
          example_defender\<lparr>ap := 5, hp := 10, statuses := []\<rparr>)
   \<and> (8::int) = ap example_defender + 3
   \<and> (5::int) = min (max 0 (ap example_defender + 3 - 2)) (ap example_defender)
   \<and> (10::int) = max 0 (hp example_defender - max 0 (2 - (ap example_defender + 3)))"
proof -
  let ?call = "resolve_attack counter_random (new_session counter_random 1 [])
          (example_attacker ''1d1'' 0) example_defender False None (Some ''block'') 0 3
          (Some 10) None"
  let ?res = "\<lparr>hit = True, crit = False, attack_roll = 10, attack_total = 13, target_ar = 10,
           damage = 2, ap_before = 8, ap_after = 5, hp_before = 10, hp_after = 10,
           called_shot_effect = None, counter = None\<rparr>"
  have ev: "?call = (Inr (?res, example_attacker ''1d1'' 0,
                          example_defender\<lparr>ap := 5, hp := 10, statuses := []\<rparr>), snd ?call)"
    using example_block_attack by (simp add: prod_eq_iff)
  from block_ap_semantics [OF ev] example_block_attack show ?thesis
    by (simp add: example_defender_def)
qed

text \<open>
  The claim as stated fails for a block of 0 AP when the damage is negative (a weapon of
  \<open>1d1\<close> with bonus 1 and a damage bonus of -5 deals -3): the code takes the path without
  block, the remaining AP is 8, and the base AP is 5.
\<close>

theorem block_ap_cap_counterexample:
  "fst (resolve_attack counter_random (new_session counter_random 1 [])
          (example_attacker ''1d1'' (- 5)) example_defender False None (Some ''block'') 0 0
          (Some 10) None)
   = Inr (\<lparr>hit = True, crit = False, attack_roll = 10, attack_total = 13, target_ar = 10,
           damage = - 3, ap_before = 5, ap_after = 8, hp_before = 10, hp_after = 10,
           called_shot_effect = None, counter = None\<rparr>,
          example_attacker ''1d1'' (- 5),
          example_defender\<lparr>ap := 8, hp := 10, statuses := []\<rparr>)
   \<and> ap example_defender = 5"
  by code_simp

end
